theory Spec2Isabelle
  imports Complex_Main "HOL-Library.Product_Lexorder"
begin

section \<open>Errors\<close>

text \<open>
  Every Python exception that the modelled code can raise is a value of this type; a
  function that can raise returns \<open>error + 'a\<close> with \<open>Inl\<close> for the exception.
\<close>

datatype error = IndexError | ValueError | SystemExit | UnboundLocalError | AttributeError
  | FitError

section \<open>Temporal alignment (preprocess_level3.py, lines 109-161)\<close>

text \<open>
  A \<open>datetime\<close> value as produced by \<open>_get_date\<close>: year, month and day (the time of day is
  always midnight there). \<open>date_key\<close> is the order \<open>dates.sort()\<close> uses.
\<close>

datatype date = Date (year: int) (month: int) (day: int)

definition date_key :: "date \<Rightarrow> int \<times> int \<times> int" where
  "date_key d = (year d, month d, day d)"

definition is_leap :: "int \<Rightarrow> bool" where
  "is_leap y \<longleftrightarrow> y mod 4 = 0 \<and> (y mod 100 \<noteq> 0 \<or> y mod 400 = 0)"

definition days_in_month :: "int \<Rightarrow> int \<Rightarrow> int" where
  "days_in_month y m =
     (if m = 2 then (if is_leap y then 29 else 28)
      else if m = 4 \<or> m = 6 \<or> m = 9 \<or> m = 11 then 30 else 31)"

definition valid_date :: "date \<Rightarrow> bool" where
  "valid_date d \<longleftrightarrow> 1 \<le> year d \<and> year d \<le> 9999 \<and> 1 \<le> month d \<and> month d \<le> 12
     \<and> 1 \<le> day d \<and> day d \<le> days_in_month (year d) (month d)"

text \<open>\<open>_get_date_doy\<close>: \<open>date.timetuple().tm_yday\<close>, the 1-based day of the year.\<close>

definition get_date_doy :: "date \<Rightarrow> int" where
  "get_date_doy d =
     (\<Sum>m \<leftarrow> [1..month d - 1]. days_in_month (year d) m) + day d"

text \<open>
  \<open>_adjust_doy\<close>: two passes of \<open>map\<close>; the second adds \<open>start + freq - start\<close> to the
  negative values.
\<close>

definition adjust_doy :: "int list \<Rightarrow> int \<Rightarrow> int \<Rightarrow> int list" where
  "adjust_doy doys start freq =
     (let doys1 = map (\<lambda>doy. doy - start) doys
      in map (\<lambda>doy. if doy \<ge> 0 then doy else doy + start + freq - start) doys1)"

text \<open>
  \<open>_get_doy\<close> from the list of dates that line 149 extracts from the file names.
  \<open>doys[0]\<close> is read only when the sorted copy differs from \<open>doys\<close>, so \<open>doys\<close> is not
  empty there.
\<close>

definition sorted_doys :: "date list \<Rightarrow> int list" where
  "sorted_doys dates = map get_date_doy (sort_key date_key dates)"

definition get_doy :: "date list \<Rightarrow> int \<Rightarrow> int list" where
  "get_doy dates freq =
     (let doys = sorted_doys dates;
          doys_check = sort doys
      in if \<not> doys_check = doys then adjust_doy doys (hd doys) freq else doys)"

text \<open>
  Every day of year lies between 1 and \<open>freq + 1\<close> (366 in a leap year, with \<open>freq\<close> = 365).
\<close>

definition in_period :: "int list \<Rightarrow> int \<Rightarrow> bool" where
  "in_period doys freq \<longleftrightarrow> list_all (\<lambda>d. 1 \<le> d \<and> d \<le> freq + 1) doys"

text \<open>
  The series crosses the year boundary once: a non-decreasing run of days of year that
  starts the series, then a non-decreasing run of days that are all before the first
  one.
\<close>

definition single_wrap :: "int list \<Rightarrow> bool" where
  "single_wrap doys \<longleftrightarrow>
     (\<exists>A B. doys = A @ B \<and> A \<noteq> [] \<and> B \<noteq> [] \<and> sorted A \<and> sorted B
        \<and> list_all (\<lambda>b. b < hd A) B)"

section \<open>Floating-point values\<close>

text \<open>
  A numpy float: a real number, one of the two infinities, or NaN. The arithmetic follows
  IEEE 754 on the special values (NaN propagates, \<open>inf - inf\<close>, \<open>0 * inf\<close>, \<open>0 / 0\<close> and
  \<open>inf / inf\<close> are NaN, a non-zero value divided by zero is an infinity). The operations
  below are those of double precision, in which the regression is computed: their
  rounding, their overflow and the sign of zero are not modelled, finite results are
  exact. Single precision, in which the guided filter computes, rounds: it is modelled
  with the guided filter.
\<close>

datatype fl = NaN | PInf | NInf | Fin real

definition isnan :: "fl \<Rightarrow> bool" where
  "isnan v \<longleftrightarrow> v = NaN"

fun fl_sgn :: "fl \<Rightarrow> int" where
  "fl_sgn NaN = 0"
| "fl_sgn PInf = 1"
| "fl_sgn NInf = - 1"
| "fl_sgn (Fin a) = (if a > 0 then 1 else if a < 0 then - 1 else 0)"

definition signed_inf :: "int \<Rightarrow> fl" where
  "signed_inf s = (if s = 0 then NaN else if s > 0 then PInf else NInf)"

fun fl_neg :: "fl \<Rightarrow> fl" where
  "fl_neg NaN = NaN"
| "fl_neg PInf = NInf"
| "fl_neg NInf = PInf"
| "fl_neg (Fin a) = Fin (- a)"

fun fl_add :: "fl \<Rightarrow> fl \<Rightarrow> fl" where
  "fl_add (Fin a) (Fin b) = Fin (a + b)"
| "fl_add NaN y = NaN"
| "fl_add x NaN = NaN"
| "fl_add PInf NInf = NaN"
| "fl_add NInf PInf = NaN"
| "fl_add PInf y = PInf"
| "fl_add NInf y = NInf"
| "fl_add x PInf = PInf"
| "fl_add x NInf = NInf"

definition fl_sub :: "fl \<Rightarrow> fl \<Rightarrow> fl" where
  "fl_sub x y = fl_add x (fl_neg y)"

fun fl_mul :: "fl \<Rightarrow> fl \<Rightarrow> fl" where
  "fl_mul (Fin a) (Fin b) = Fin (a * b)"
| "fl_mul NaN y = NaN"
| "fl_mul x NaN = NaN"
| "fl_mul x y = signed_inf (fl_sgn x * fl_sgn y)"

fun fl_div :: "fl \<Rightarrow> fl \<Rightarrow> fl" where
  "fl_div (Fin a) (Fin b) = (if b = 0 then signed_inf (fl_sgn (Fin a)) else Fin (a / b))"
| "fl_div NaN y = NaN"
| "fl_div x NaN = NaN"
| "fl_div (Fin a) y = Fin 0"
| "fl_div x (Fin b) = signed_inf (fl_sgn x * (if b < 0 then - 1 else 1))"
| "fl_div x y = NaN"

fun fl_cos :: "fl \<Rightarrow> fl" where
  "fl_cos (Fin a) = Fin (cos a)"
| "fl_cos x = NaN"

text \<open>The comparison \<open>==\<close> of two floats: false as soon as one side is NaN.\<close>

definition fl_eq :: "fl \<Rightarrow> fl \<Rightarrow> bool" where
  "fl_eq x y \<longleftrightarrow> \<not> isnan x \<and> \<not> isnan y \<and> x = y"

type_synonym matrix = "fl list list"

text \<open>
  Element-wise operations of numpy on two-dimensional arrays. The callers below hand
  them operands of one shape.
\<close>

definition mat_map2 :: "(fl \<Rightarrow> fl \<Rightarrow> fl) \<Rightarrow> matrix \<Rightarrow> matrix \<Rightarrow> matrix" where
  "mat_map2 f A B = map2 (map2 f) A B"

definition mat_map :: "('a \<Rightarrow> 'b) \<Rightarrow> 'a list list \<Rightarrow> 'b list list" where
  "mat_map f A = map (map f) A"

definition same_shape :: "'a list list \<Rightarrow> 'b list list \<Rightarrow> bool" where
  "same_shape A B \<longleftrightarrow> map length A = map length B"

section \<open>Harmonic design matrix (preprocess_level3.py, lines 164-183)\<close>

text \<open>
  \<open>np.tile(np.array([day_arr]).transpose(), (1, n))\<close>: one row per day, the day repeated
  \<open>n\<close> times. \<open>np.tile(np.arange(n), (len(day_arr), 1))\<close>: the row \<open>0 .. n-1\<close> once per day.
\<close>

definition tile_column :: "'a list \<Rightarrow> nat \<Rightarrow> 'a list list" where
  "tile_column day_arr n = map (\<lambda>d. replicate n d) day_arr"

definition tile_arange :: "nat \<Rightarrow> nat \<Rightarrow> int list list" where
  "tile_arange n m = replicate m (map int [0..<n])"

text \<open>
  \<open>_getVariable\<close>. The days and the column numbers are integer arrays; \<open>np.ceil(n / 2)\<close>
  and everything after it is floating point. The last assignment reads and writes column
  0, which an array without columns does not have.
\<close>

definition getVariable :: "int \<Rightarrow> int list \<Rightarrow> nat \<Rightarrow> error + matrix" where
  "getVariable freq day_arr n =
     (let t = tile_column day_arr n;
          nn = tile_arange n (length day_arr);
          n0 = mat_map (\<lambda>v. Fin (of_int \<lceil>real_of_int v / 2\<rceil>)) nn;
          num = mat_map2 fl_mul (mat_map (\<lambda>h. fl_mul (Fin (2 * pi)) h) n0)
                  (mat_map (\<lambda>d. Fin (of_int d)) t);
          phase = mat_map (\<lambda>v. Fin (of_int (v mod 2) * pi / 2)) nn;
          out = mat_map fl_cos
                  (mat_map2 fl_sub (mat_map (\<lambda>v. fl_div v (Fin (of_int freq))) num) phase)
      in if n = 0 then Inl IndexError
         else Inr (map2 (\<lambda>row trow. row[0 := Fin (of_int (trow ! 0))]) out t))"

section \<open>Single precision (numpy float32)\<close>

text \<open>
  \<open>guided_filter.py\<close> computes in single precision: \<open>np.float32(v)\<close> converts a number to
  the nearest binary32 value, ties to the even significand, and to an infinity when the
  rounded magnitude reaches \<open>2 ^ 128\<close>. A binary32 value is an integer multiple of
  \<open>2 ^ (e - 23)\<close>, where \<open>e\<close> is the binary exponent of the number and at least -126 (below
  \<open>2 ^ -126\<close> the values are the subnormal multiples of \<open>2 ^ -149\<close>). The sign of zero is
  not modelled. The numbers converted are Python floats, pixels of a raster and exact
  results of one operation on binary32 values: they are reals here, so the rounding of
  double precision before the conversion is not modelled.
\<close>

definition pow2 :: "int \<Rightarrow> real" where
  "pow2 e = (if 0 \<le> e then 2 ^ nat e else 1 / 2 ^ nat (- e))"

definition round_half_even :: "real \<Rightarrow> int" where
  "round_half_even x =
     (let f = \<lfloor>x\<rfloor>; d = x - of_int f
      in if d < 1 / 2 then f else if 1 / 2 < d then f + 1 else if even f then f else f + 1)"

definition float32_exponent :: "real \<Rightarrow> int" where
  "float32_exponent x = max \<lfloor>log 2 \<bar>x\<bar>\<rfloor> (- 126)"

definition round32 :: "real \<Rightarrow> fl" where
  "round32 x =
     (if x = 0 then Fin 0
      else
        (let q = pow2 (float32_exponent x - 23);
             y = of_int (round_half_even (x / q)) * q
         in if pow2 128 \<le> \<bar>y\<bar> then (if 0 < x then PInf else NInf) else Fin y))"

text \<open>\<open>np.float32\<close> on a numpy float or on each element of an array.\<close>

fun f32 :: "fl \<Rightarrow> fl" where
  "f32 (Fin a) = round32 a"
| "f32 NaN = NaN"
| "f32 PInf = PInf"
| "f32 NInf = NInf"

text \<open>
  The operators \<open>+\<close>, \<open>-\<close>, \<open>*\<close> and \<open>/\<close> of numpy on \<open>float32\<close> operands: the exact result,
  rounded to binary32.
\<close>

definition add32 :: "fl \<Rightarrow> fl \<Rightarrow> fl" where
  "add32 x y = f32 (fl_add x y)"

definition sub32 :: "fl \<Rightarrow> fl \<Rightarrow> fl" where
  "sub32 x y = f32 (fl_sub x y)"

definition mul32 :: "fl \<Rightarrow> fl \<Rightarrow> fl" where
  "mul32 x y = f32 (fl_mul x y)"

definition div32 :: "fl \<Rightarrow> fl \<Rightarrow> fl" where
  "div32 x y = f32 (fl_div x y)"





section \<open>Guided filter (guided_filter.py)\<close>

text \<open>
  \<open>_boxfilter\<close> calls \<open>cv2.boxFilter(src, -1, (ksize, ksize))\<close>. OpenCV is not part of the
  repository: its box filter is the parameter \<open>cv2_boxFilter\<close>. It returns an array of the
  shape of its source (\<open>shape_preserving\<close>).
\<close>

type_synonym box_filter = "matrix \<Rightarrow> int \<Rightarrow> matrix"

definition shape_preserving :: "box_filter \<Rightarrow> bool" where
  "shape_preserving cv2_boxFilter \<longleftrightarrow> (\<forall>src ksize. same_shape (cv2_boxFilter src ksize) src)"

definition boxfilter :: "box_filter \<Rightarrow> matrix \<Rightarrow> int \<Rightarrow> matrix" where
  "boxfilter cv2_boxFilter src ksize = cv2_boxFilter src ksize"

text \<open>
  What \<open>cv2.boxFilter(src, -1, (ksize, ksize))\<close> computes, from the documentation of OpenCV:
  the kernel is normalized, its anchor is the kernel centre \<open>ksize div 2\<close>, and a position
  outside the array is reflected at the border without repeating the border element
  (\<open>BORDER_REFLECT_101\<close>, the default). The pixel of the result at \<open>(i, j)\<close> is the mean of
  the \<open>ksize * ksize\<close> elements of the window around \<open>(i, j)\<close>; for a \<open>float32\<close> source the sum
  is accumulated in double precision (exact here) and the mean converted to \<open>float32\<close>.
\<close>

definition reflect101 :: "nat \<Rightarrow> int \<Rightarrow> nat" where
  "reflect101 len p =
     (if len \<le> 1 then 0
      else (let m = 2 * (int len - 1); r = p mod m
            in if r < int len then nat r else nat (m - r)))"

definition window :: "matrix \<Rightarrow> nat \<Rightarrow> nat \<Rightarrow> nat \<Rightarrow> fl list" where
  "window src k i j =
     concat (map (\<lambda>di. map (\<lambda>dj.
         src ! reflect101 (length src) (int i + int di - int (k div 2))
             ! reflect101 (length (src ! i)) (int j + int dj - int (k div 2)))
       [0..<k]) [0..<k])"

definition window_mean :: "matrix \<Rightarrow> nat \<Rightarrow> nat \<Rightarrow> nat \<Rightarrow> fl" where
  "window_mean src k i j =
     f32 (fl_div (foldl fl_add (Fin 0) (window src k i j)) (Fin (real (k * k))))"


text \<open>The box filter that computes the window mean at every pixel of every array.\<close>

definition window_filter :: box_filter where
  "window_filter src ksize =
     map (\<lambda>i. map (\<lambda>j. window_mean src (nat ksize) i j) [0..<length (src ! i)]) [0..<length src]"

text \<open>
  \<open>_guidedfilter\<close>, lines 44-64, cut at the names of its local variables: \<open>gf_cov\<close> is
  \<open>cov_gi\<close>, \<open>gf_var\<close> is \<open>var_g\<close>, \<open>gf_divisor\<close> is \<open>var_g + np.float32(eps + 0.0001)\<close>,
  \<open>gf_a\<close> is \<open>a\<close>, \<open>gf_b\<close> is \<open>b\<close>, and \<open>guidedfilter\<close> returns \<open>q\<close>. The guide and the
  target are \<open>float32\<close> arrays (\<open>guided_filter\<close> converts each band before the call), so
  every operation is one of \<open>float32\<close>. \<open>eps + 0.0001\<close> is a Python float, converted by
  \<open>np.float32\<close> before it is added to the variance.
\<close>

definition gf_cov :: "box_filter \<Rightarrow> matrix \<Rightarrow> matrix \<Rightarrow> int \<Rightarrow> matrix" where
  "gf_cov bf fsrc src ksize =
     (let mean_guided = boxfilter bf fsrc ksize;
          mean_img = boxfilter bf src ksize;
          mean_gi = boxfilter bf (mat_map2 mul32 fsrc src) ksize
      in mat_map2 sub32 mean_gi (mat_map2 mul32 mean_guided mean_img))"

definition gf_var :: "box_filter \<Rightarrow> matrix \<Rightarrow> int \<Rightarrow> matrix" where
  "gf_var bf fsrc ksize =
     (let mean_guided = boxfilter bf fsrc ksize;
          mean_gg = boxfilter bf (mat_map2 mul32 fsrc fsrc) ksize
      in mat_map2 sub32 mean_gg (mat_map2 mul32 mean_guided mean_guided))"

definition gf_divisor :: "box_filter \<Rightarrow> matrix \<Rightarrow> int \<Rightarrow> real \<Rightarrow> matrix" where
  "gf_divisor bf fsrc ksize eps =
     mat_map (\<lambda>v. add32 v (round32 (eps + 0.0001))) (gf_var bf fsrc ksize)"

definition gf_a :: "box_filter \<Rightarrow> matrix \<Rightarrow> matrix \<Rightarrow> int \<Rightarrow> real \<Rightarrow> matrix" where
  "gf_a bf fsrc src ksize eps =
     mat_map2 div32 (gf_cov bf fsrc src ksize) (gf_divisor bf fsrc ksize eps)"

definition gf_b :: "box_filter \<Rightarrow> matrix \<Rightarrow> matrix \<Rightarrow> int \<Rightarrow> real \<Rightarrow> matrix" where
  "gf_b bf fsrc src ksize eps =
     (let mean_guided = boxfilter bf fsrc ksize;
          mean_img = boxfilter bf src ksize;
          a = gf_a bf fsrc src ksize eps
      in mat_map2 sub32 mean_img (mat_map2 mul32 a mean_guided))"

definition guidedfilter :: "box_filter \<Rightarrow> matrix \<Rightarrow> matrix \<Rightarrow> int \<Rightarrow> real \<Rightarrow> matrix" where
  "guidedfilter bf fsrc src ksize eps =
     (let a = gf_a bf fsrc src ksize eps;
          b = gf_b bf fsrc src ksize eps;
          mean_a = boxfilter bf a ksize;
          mean_b = boxfilter bf b ksize;
          q = mat_map2 add32 (mat_map2 mul32 mean_a fsrc) mean_b
      in q)"

text \<open>
  A GDAL dataset as \<open>guided_filter\<close> uses it: size, bands (each with its declared no-data
  value, \<open>None\<close> when \<open>GetNoDataValue()\<close> returns \<open>None\<close>, and its pixels as \<open>ReadAsArray()\<close>
  returns them, in the data type of the band: integers or floats of either precision),
  geotransform and projection. \<open>RasterCount\<close> is the length of \<open>bands\<close>.
\<close>

record band =
  nodata :: "fl option"
  pixels :: matrix

record raster =
  width :: nat
  height :: nat
  bands :: "band list"
  geotransform :: "real list"
  projection :: string

text \<open>
  \<open>driver.Create(dst_path, width, height, n_band, gdal.GDT_Float32)\<close>: a new dataset whose
  bands hold \<open>float32\<close> pixels and declare no no-data value. The destination path and the creation options, the only
  difference between the ENVI and the GTiff branch, are not modelled.
\<close>

definition create_raster :: "nat \<Rightarrow> nat \<Rightarrow> nat \<Rightarrow> raster" where
  "create_raster w h n_band =
     \<lparr>width = w, height = h,
      bands = replicate n_band \<lparr>nodata = None, pixels = replicate h (replicate w (Fin 0))\<rparr>,
      geotransform = [0, 1, 0, 0, 0, 1], projection = ''''\<rparr>"

text \<open>
  \<open>np.where(cond, -9999, band_raw)\<close> and \<open>np.where(cond, band_raw, band_filter)\<close>, where
  \<open>cond\<close> is \<open>np.isnan(band_raw)\<close> or \<open>band_raw == novalue\<close>, a test of each pixel of
  \<open>band_raw\<close>.
\<close>

definition substitute :: "(fl \<Rightarrow> bool) \<Rightarrow> matrix \<Rightarrow> matrix" where
  "substitute cond band_raw = mat_map (\<lambda>v. if cond v then Fin (- 9999) else v) band_raw"

definition restore :: "(fl \<Rightarrow> bool) \<Rightarrow> matrix \<Rightarrow> matrix \<Rightarrow> matrix" where
  "restore cond band_raw band_filter =
     mat_map2 (\<lambda>raw filtered. if cond raw then raw else filtered) band_raw band_filter"

text \<open>
  The test that marks the no-data pixels of a band whose no-data value is \<open>nd\<close>
  (lines 95-104), applied to the pixels of \<open>band_raw\<close>, the band converted to \<open>float32\<close>:
  \<open>np.isnan(band_raw)\<close> when \<open>nd\<close> is NaN, \<open>band_raw == np.float32(nd)\<close> otherwise.
\<close>

definition nodata_cond :: "fl \<Rightarrow> fl \<Rightarrow> bool" where
  "nodata_cond nd = (if isnan nd then isnan else (\<lambda>v. fl_eq v (f32 nd)))"

text \<open>
  The body of the loop over the bands (lines 94-112): \<open>src_band\<close> is band \<open>i + 1\<close> of the
  source, \<open>outband\<close> band \<open>i + 1\<close> of the output, returned with the array written and, in the
  first branch only, the no-data value set. The no-data value (line 95) and the pixels
  (lines 96 and 109) are converted by \<open>np.float32\<close>; \<open>np.isnan\<close> (line 97) and
  \<open>SetNoDataValue\<close> (line 107) receive the no-data value as declared. The array written
  is a \<open>float32\<close> array, stored as it is in the \<open>float32\<close> band.
\<close>

definition filter_band :: "box_filter \<Rightarrow> int \<Rightarrow> real \<Rightarrow> band \<Rightarrow> band \<Rightarrow> band" where
  "filter_band bf ksize eps src_band outband =
     (case nodata src_band of
        Some nd \<Rightarrow>
          (let novalue = f32 nd;
               band_raw = mat_map f32 (pixels src_band)
           in if isnan nd then
                (let band = substitute isnan band_raw;
                     band_filter = guidedfilter bf band band ksize eps;
                     out = restore isnan band_raw band_filter
                 in outband\<lparr>nodata := Some nd, pixels := out\<rparr>)
              else
                (let band = substitute (\<lambda>v. fl_eq v novalue) band_raw;
                     band_filter = guidedfilter bf band band ksize eps;
                     out = restore (\<lambda>v. fl_eq v novalue) band_raw band_filter
                 in outband\<lparr>nodata := Some nd, pixels := out\<rparr>))
      | None \<Rightarrow>
          (let band = mat_map f32 (pixels src_band);
               out = guidedfilter bf band band ksize eps
           in outband\<lparr>pixels := out\<rparr>))"

fun band_loop :: "box_filter \<Rightarrow> int \<Rightarrow> real \<Rightarrow> raster \<Rightarrow> nat list \<Rightarrow> raster \<Rightarrow> raster" where
  "band_loop bf ksize eps img [] out_data = out_data"
| "band_loop bf ksize eps img (i # rest) out_data =
     band_loop bf ksize eps img rest
       (out_data\<lparr>bands := (bands out_data)
          [i := filter_band bf ksize eps (bands img ! i) (bands out_data ! i)]\<rparr>)"

text \<open>
  \<open>guided_filter\<close> on the opened source dataset. The result is the dataset written (none
  when \<open>sys.exit\<close> stops the function before \<open>driver.Create\<close>) and the exception raised, if
  any. The last statement, \<open>del img, band_raw, band, out_data, novalue, outband,
  band_filter\<close>, names \<open>novalue\<close> and \<open>band_filter\<close>, which are bound only in the branch of a
  band that declares a no-data value, and \<open>band\<close> and \<open>outband\<close>, bound only when there is
  a band: when no band declares a no-data value, Python raises \<open>UnboundLocalError\<close>
  there, after the output has been written and closed.
\<close>

definition guided_filter ::
  "box_filter \<Rightarrow> raster \<Rightarrow> int \<Rightarrow> real \<Rightarrow> string \<Rightarrow> raster option \<times> error option" where
  "guided_filter bf img ksize eps out_format =
     (let w = width img; h = height img; n_band = length (bands img)
      in if out_format = ''ENVI'' \<or> out_format = ''GTiff'' then
           (let out_data = create_raster w h n_band;
                out_data = band_loop bf ksize eps img [0..<n_band] out_data;
                out_data = out_data\<lparr>geotransform := geotransform img\<rparr>;
                out_data = out_data\<lparr>projection := projection img\<rparr>
            in (Some out_data,
                if list_ex (\<lambda>b. nodata b \<noteq> None) (bands img) then None
                else Some UnboundLocalError))
         else (None, Some SystemExit))"

section \<open>Per-pixel harmonic regression (preprocess_level3.py, lines 228-418)\<close>

text \<open>
  \<open>Lasso(max_iter=10000, alpha=alpha).fit(x_new, y_new)\<close> belongs to scikit-learn, not to
  the repository: it is the parameter \<open>lasso\<close>, a function of \<open>alpha\<close>, \<open>x_new\<close> and \<open>y_new\<close>
  that returns \<open>(coef_, intercept_)\<close> or raises. The same call with the same arguments
  gives the same result in the parent process and in a worker.
\<close>

type_synonym lasso_fit = "real \<Rightarrow> matrix \<Rightarrow> fl list \<Rightarrow> error + (fl list \<times> fl)"

type_synonym cube = "fl list list list"

text \<open>
  \<open>a[valid]\<close> for a boolean array \<open>valid\<close> (the mask \<open>~np.isnan(y)\<close>): the entries of \<open>a\<close> at
  the positions where \<open>valid\<close> holds.
\<close>

definition bool_index :: "'a list \<Rightarrow> bool list \<Rightarrow> 'a list" where
  "bool_index a valid = map (\<lambda>i. a ! i) (filter (\<lambda>i. valid ! i) [0..<length valid])"

text \<open>
  The body of the loop over the columns in \<open>harmonic_fitting\<close>, lines 286-296, from the
  series \<open>y\<close> of one pixel to \<open>coefs\<close>. numpy refuses a boolean index whose length is not the
  number of rows of \<open>x\<close>.
\<close>

definition fit_pixel :: "lasso_fit \<Rightarrow> real \<Rightarrow> nat \<Rightarrow> matrix \<Rightarrow> fl list \<Rightarrow> error + fl list" where
  "fit_pixel lasso alpha num_pair x y =
     (if length x \<noteq> length y then Inl IndexError
      else
        (let valid = map (\<lambda>v. \<not> isnan v) y;
             x_new = bool_index x valid;
             y_new = bool_index y valid
         in if length y_new \<noteq> 0 then
              (case lasso alpha x_new y_new of
                 Inl e \<Rightarrow> Inl e
               | Inr (coefficients, intercept) \<Rightarrow> Inr (intercept # coefficients))
            else
              (let coefficients = replicate (1 + num_pair * 2) NaN;
                   intercept = NaN
               in Inr (intercept # coefficients))))"

text \<open>The same body in \<open>_cal_row\<close> of \<open>harmonic_fitting_br\<close>, lines 374-384.\<close>

definition fit_pixel_br :: "lasso_fit \<Rightarrow> real \<Rightarrow> nat \<Rightarrow> matrix \<Rightarrow> fl list \<Rightarrow> error + fl list" where
  "fit_pixel_br lasso alpha num_pair x y =
     (if length x \<noteq> length y then Inl IndexError
      else
        (let valid = map (\<lambda>v. \<not> isnan v) y;
             x_new = bool_index x valid;
             y_new = bool_index y valid
         in if length y_new \<noteq> 0 then
              (case lasso alpha x_new y_new of
                 Inl e \<Rightarrow> Inl e
               | Inr (coefficients, intercept) \<Rightarrow> Inr (intercept # coefficients))
            else
              (let coefficients = replicate (1 + num_pair * 2) NaN;
                   intercept = NaN
               in Inr (intercept # coefficients))))"

text \<open>
  \<open>np.array([value[row_each, :] for value in values])\<close> and \<open>values_row[:, col_each]\<close>: the
  row of every image, and the series of one pixel of that row. An index outside an array
  raises. All images of a tile have the shape of the first one.
\<close>

definition rows_at :: "matrix list \<Rightarrow> nat \<Rightarrow> error + matrix" where
  "rows_at values row_each =
     (if list_all (\<lambda>value. row_each < length value) values
      then Inr (map (\<lambda>value. value ! row_each) values) else Inl IndexError)"

definition column :: "matrix \<Rightarrow> nat \<Rightarrow> error + fl list" where
  "column values_row col_each =
     (if list_all (\<lambda>row. col_each < length row) values_row
      then Inr (map (\<lambda>row. row ! col_each) values_row) else Inl IndexError)"

text \<open>
  \<open>coefs_row[:, col_each] = coefs\<close>: one value per row of \<open>coefs_row\<close>; numpy broadcasts an
  array of one value and refuses any other length.
\<close>

definition set_col :: "matrix \<Rightarrow> nat \<Rightarrow> fl list \<Rightarrow> error + matrix" where
  "set_col coefs_row col_each coefs =
     (if length coefs = length coefs_row
        then Inr (map2 (\<lambda>row v. row[col_each := v]) coefs_row coefs)
      else if length coefs = 1
        then Inr (map (\<lambda>row. row[col_each := coefs ! 0]) coefs_row)
      else Inl ValueError)"

text \<open>\<open>lasso_coefs[:, row_each, :] = coefs_row\<close>, both with \<open>2 + num_pair * 2\<close> bands.\<close>

definition set_row :: "cube \<Rightarrow> nat \<Rightarrow> matrix \<Rightarrow> cube" where
  "set_row lasso_coefs row_each coefs_row =
     map2 (\<lambda>band vals. band[row_each := vals]) lasso_coefs coefs_row"

definition zeros :: "nat \<Rightarrow> nat \<Rightarrow> matrix" where
  "zeros n m = replicate n (replicate m (Fin 0))"

definition zeros3 :: "nat \<Rightarrow> nat \<Rightarrow> nat \<Rightarrow> cube" where
  "zeros3 n r c = replicate n (zeros r c)"

text \<open>The loop over the columns of one row in \<open>harmonic_fitting\<close>, lines 284-297.\<close>

fun cols_loop ::
  "lasso_fit \<Rightarrow> real \<Rightarrow> nat \<Rightarrow> matrix \<Rightarrow> matrix \<Rightarrow> nat list \<Rightarrow> matrix \<Rightarrow> error + matrix" where
  "cols_loop lasso alpha num_pair x values_row [] coefs_row = Inr coefs_row"
| "cols_loop lasso alpha num_pair x values_row (col_each # rest) coefs_row =
     (case column values_row col_each of
        Inl e \<Rightarrow> Inl e
      | Inr y \<Rightarrow>
          (case fit_pixel lasso alpha num_pair x y of
             Inl e \<Rightarrow> Inl e
           | Inr coefs \<Rightarrow>
               (case set_col coefs_row col_each coefs of
                  Inl e \<Rightarrow> Inl e
                | Inr coefs_row' \<Rightarrow> cols_loop lasso alpha num_pair x values_row rest coefs_row')))"

text \<open>
  The body of the loop over the rows in \<open>harmonic_fitting\<close> up to its last statement, lines
  281-297: the array \<open>coefs_row\<close> of row \<open>row_each\<close>.
\<close>

definition fit_row ::
  "lasso_fit \<Rightarrow> real \<Rightarrow> nat \<Rightarrow> matrix \<Rightarrow> matrix list \<Rightarrow> nat \<Rightarrow> nat \<Rightarrow> error + matrix" where
  "fit_row lasso alpha num_pair x values n_cols row_each =
     (case rows_at values row_each of
        Inl e \<Rightarrow> Inl e
      | Inr values_row \<Rightarrow>
          cols_loop lasso alpha num_pair x values_row [0..<n_cols]
            (zeros (2 + num_pair * 2) n_cols))"

text \<open>The loop over the rows in \<open>harmonic_fitting\<close>, lines 280-298.\<close>

fun rows_loop ::
  "lasso_fit \<Rightarrow> real \<Rightarrow> nat \<Rightarrow> matrix \<Rightarrow> matrix list \<Rightarrow> nat \<Rightarrow> nat list \<Rightarrow> cube \<Rightarrow> error + cube"
  where
  "rows_loop lasso alpha num_pair x values n_cols [] lasso_coefs = Inr lasso_coefs"
| "rows_loop lasso alpha num_pair x values n_cols (row_each # rest) lasso_coefs =
     (case fit_row lasso alpha num_pair x values n_cols row_each of
        Inl e \<Rightarrow> Inl e
      | Inr coefs_row \<Rightarrow>
          rows_loop lasso alpha num_pair x values n_cols rest
            (set_row lasso_coefs row_each coefs_row))"

text \<open>
  \<open>harmonic_fitting\<close> from line 277 to line 298: from the design matrix \<open>x\<close>, the images
  \<open>values\<close> (NaN where an image has no data) and the size of the first image to the array
  \<open>lasso_coefs\<close> that is written to the output file.
\<close>

definition harmonic_fitting ::
  "lasso_fit \<Rightarrow> real \<Rightarrow> nat \<Rightarrow> matrix \<Rightarrow> matrix list \<Rightarrow> nat \<Rightarrow> nat \<Rightarrow> error + cube" where
  "harmonic_fitting lasso alpha num_pair x values n_rows n_cols =
     (let lasso_coefs = zeros3 (2 + num_pair * 2) n_rows n_cols
      in rows_loop lasso alpha num_pair x values n_cols [0..<n_rows] lasso_coefs)"

text \<open>The loop over \<open>cols\<close> in \<open>_cal_row\<close>, lines 371-385.\<close>

fun cal_row_cols ::
  "lasso_fit \<Rightarrow> real \<Rightarrow> nat \<Rightarrow> matrix \<Rightarrow> matrix \<Rightarrow> nat list \<Rightarrow> matrix \<Rightarrow> error + matrix" where
  "cal_row_cols lasso alpha num_pair x values_row [] coefs_row = Inr coefs_row"
| "cal_row_cols lasso alpha num_pair x values_row (col_each # cols) coefs_row =
     (case column values_row col_each of
        Inl e \<Rightarrow> Inl e
      | Inr y \<Rightarrow>
          (case fit_pixel_br lasso alpha num_pair x y of
             Inl e \<Rightarrow> Inl e
           | Inr coefs \<Rightarrow>
               (case set_col coefs_row col_each coefs of
                  Inl e \<Rightarrow> Inl e
                | Inr coefs_row' \<Rightarrow> cal_row_cols lasso alpha num_pair x values_row cols coefs_row')))"

text \<open>
  \<open>_cal_row(row_each, values_row, cols)\<close>. The worker computes the coefficients of its row,
  reopens the scratch file and writes the row; \<open>store\<close> is the content of the file, and the
  result its content after the write.
\<close>

definition cal_row ::
  "lasso_fit \<Rightarrow> real \<Rightarrow> nat \<Rightarrow> matrix \<Rightarrow> nat \<Rightarrow> nat \<times> matrix \<times> nat list \<Rightarrow> cube \<Rightarrow> error + cube"
  where
  "cal_row lasso alpha num_pair x n_cols task store =
     (case task of (row_each, values_row, cols) \<Rightarrow>
        (case cal_row_cols lasso alpha num_pair x values_row cols
                (zeros (2 + num_pair * 2) n_cols) of
           Inl e \<Rightarrow> Inl e
         | Inr coefs_row \<Rightarrow> Inr (set_row store row_each coefs_row)))"

text \<open>
  The argument list of \<open>pool.starmap\<close>, built in the parent process before any task
  starts: \<open>[(row_one, np.array([value[row_one, :] for value in values]), range_col) for
  row_one in range_row]\<close>.
\<close>

fun starmap_args ::
  "matrix list \<Rightarrow> nat list \<Rightarrow> nat list \<Rightarrow> error + (nat \<times> matrix \<times> nat list) list" where
  "starmap_args values [] range_col = Inr []"
| "starmap_args values (row_one # range_row) range_col =
     (case rows_at values row_one of
        Inl e \<Rightarrow> Inl e
      | Inr values_row \<Rightarrow>
          (case starmap_args values range_row range_col of
             Inl e \<Rightarrow> Inl e
           | Inr args \<Rightarrow> Inr ((row_one, values_row, range_col) # args)))"

text \<open>
  \<open>pool.starmap(func, args)\<close> on a pool of worker processes. Every task is sent to a worker
  as a pickle of \<open>func\<close> and its arguments. A function defined inside another function
  cannot be pickled (\<open>AttributeError: Can't pickle local object\<close>): the exception is stored
  in the result of the call and \<open>starmap\<close> raises it in the parent process, and no task has
  run. With an empty argument list nothing is sent and \<open>starmap\<close> returns.

  When the function can be pickled: a task reads nothing of the scratch file and writes
  its own row in one assignment, so a run of the pool is the run of the tasks one after
  the other in the order in which they write: \<open>order\<close>, a permutation of the positions of
  \<open>args\<close>, chosen by the scheduler. \<open>starmap\<close> raises when a task raised.
\<close>

fun run_tasks ::
  "('t \<Rightarrow> cube \<Rightarrow> error + cube) \<Rightarrow> 't list \<Rightarrow> cube \<Rightarrow> error + cube" where
  "run_tasks f [] store = Inr store"
| "run_tasks f (task # tasks) store =
     (case f task store of
        Inl e \<Rightarrow> Inl e
      | Inr store' \<Rightarrow> run_tasks f tasks store')"

definition starmap ::
  "bool \<Rightarrow> nat list \<Rightarrow> ('t \<Rightarrow> cube \<Rightarrow> error + cube) \<Rightarrow> 't list \<Rightarrow> cube \<Rightarrow> error + cube"
  where
  "starmap picklable order f args store =
     (if args = [] then Inr store
      else if \<not> picklable then Inl AttributeError
      else run_tasks f (map (\<lambda>i. args ! i) order) store)"

definition schedule :: "nat list \<Rightarrow> nat \<Rightarrow> bool" where
  "schedule order n \<longleftrightarrow> distinct order \<and> set order = {0..<n}"

text \<open>
  \<open>harmonic_fitting_br\<close> from line 362 to line 403: the scratch array, created filled with
  zeros, after the pool has run. The function handed to the pool is \<open>_cal_row\<close>, defined
  inside \<open>harmonic_fitting_br\<close> (line 367), so it cannot be pickled. (The rasters that are
  read have at least one row and one column.)
\<close>

definition harmonic_fitting_br ::
  "nat list \<Rightarrow> lasso_fit \<Rightarrow> real \<Rightarrow> nat \<Rightarrow> matrix \<Rightarrow> matrix list \<Rightarrow> nat \<Rightarrow> nat \<Rightarrow> error + cube"
  where
  "harmonic_fitting_br order lasso alpha num_pair x values n_rows n_cols =
     (let lasso_coefs = zeros3 (2 + num_pair * 2) n_rows n_cols
      in case starmap_args values [0..<n_rows] [0..<n_cols] of
           Inl e \<Rightarrow> Inl e
         | Inr args \<Rightarrow>
             starmap False order (cal_row lasso alpha num_pair x n_cols) args lasso_coefs)"

text \<open>
  The scratch file of \<open>harmonic_fitting_br\<close>, lines 362-418. The state is the set of files
  that exist and the trace of what the function has done. \<open>np.memmap(..., mode="w+")\<close>
  creates \<open>tmp_<tile_index>.dat\<close>; an exception of \<open>pool.starmap\<close> or of the write-out
  (\<open>driver.Create\<close> returns \<open>None\<close> when it cannot create \<open>dst_path\<close>, and the next line
  raises) leaves the function at once; \<open>os.unlink\<close> is its last statement.
\<close>

datatype event = Memmap_Create string | Pool_Starmap | Write_Out string | Unlink string

record world =
  files :: "string set"
  trace :: "event list"

definition scratch_name :: "string \<Rightarrow> string" where
  "scratch_name tile_index = ''tmp_'' @ tile_index @ ''.dat''"

definition harmonic_fitting_br_files ::
  "nat list \<Rightarrow> lasso_fit \<Rightarrow> real \<Rightarrow> nat \<Rightarrow> matrix \<Rightarrow> matrix list \<Rightarrow> nat \<Rightarrow> nat \<Rightarrow>
   string \<Rightarrow> string \<Rightarrow> bool \<Rightarrow> world \<Rightarrow> world \<times> (error + cube)" where
  "harmonic_fitting_br_files order lasso alpha num_pair x values n_rows n_cols
       tile_index dst_path create_ok w =
     (let w1 = w\<lparr>files := insert (scratch_name tile_index) (files w),
                 trace := trace w @ [Memmap_Create (scratch_name tile_index)]\<rparr>;
          w2 = w1\<lparr>trace := trace w1 @ [Pool_Starmap]\<rparr>
      in case harmonic_fitting_br order lasso alpha num_pair x values n_rows n_cols of
           Inl e \<Rightarrow> (w2, Inl e)
         | Inr lasso_coefs \<Rightarrow>
             if \<not> create_ok then (w2, Inl AttributeError)
             else
               (let w3 = w2\<lparr>files := insert dst_path (files w2),
                            trace := trace w2 @ [Write_Out dst_path]\<rparr>;
                    w4 = w3\<lparr>files := files w3 - {scratch_name tile_index},
                            trace := trace w3 @ [Unlink (scratch_name tile_index)]\<rparr>
                in (w4, Inr lasso_coefs)))"

section \<open>Batch drivers (preprocess_level3.py, lines 516-542 and 703-720)\<close>

text \<open>
  Modelled from the spec: the class \<open>FixedThreadPoolExecutor\<close> of the module
  \<open>fixed_thread_pool_executor\<close>, which \<open>preprocess_level3.py\<close> imports and which is not among
  the sources. Section 4.5 of the specification: the pool is constructed with a fixed
  worker capacity; \<open>submit(task, *args)\<close> enqueues the task and returns whether it was
  accepted for execution, not whether it ultimately succeeded; \<open>drain()\<close> returns when all
  previously submitted tasks have finished, success or failure; after \<open>close()\<close> a
  \<open>submit\<close> is rejected. Only what the batch drivers observe is modelled: the answers of
  \<open>submit\<close>, and after \<open>drain\<close> the outcome of every queued task, which \<open>run\<close> gives.
\<close>

datatype outcome = Succeeded | Failed

record 'a executor =
  capacity :: nat
  is_closed :: bool
  queue :: "'a list"
  finished :: "('a \<times> outcome) list"

definition new_executor :: "nat \<Rightarrow> 'a executor" where
  "new_executor n = \<lparr>capacity = n, is_closed = False, queue = [], finished = []\<rparr>"

definition submit :: "'a executor \<Rightarrow> 'a \<Rightarrow> 'a executor \<times> bool" where
  "submit ex task =
     (if is_closed ex then (ex, False) else (ex\<lparr>queue := queue ex @ [task]\<rparr>, True))"

definition drain :: "('a \<Rightarrow> outcome) \<Rightarrow> 'a executor \<Rightarrow> 'a executor" where
  "drain run ex =
     ex\<lparr>finished := finished ex @ map (\<lambda>task. (task, run task)) (queue ex), queue := []\<rparr>"

definition close :: "'a executor \<Rightarrow> 'a executor" where
  "close ex = ex\<lparr>is_closed := True\<rparr>"

text \<open>
  The loop of \<open>s1_harmonic_batch\<close> over the tiles of the footprint, lines 521-534, and the
  loop of \<open>s2_wasp_batch\<close> over the tile ids, lines 708-712: \<open>success_count\<close> grows when
  \<open>submit(...) is True\<close>, \<open>failure_count\<close> otherwise.
\<close>

fun submit_loop :: "'a executor \<Rightarrow> 'a list \<Rightarrow> nat \<Rightarrow> nat \<Rightarrow> 'a executor \<times> nat \<times> nat" where
  "submit_loop ex [] success_count failure_count = (ex, success_count, failure_count)"
| "submit_loop ex (tile # tiles) success_count failure_count =
     (case submit ex tile of
        (ex', accepted) \<Rightarrow>
          if accepted = True then submit_loop ex' tiles (success_count + 1) failure_count
          else submit_loop ex' tiles success_count (failure_count + 1))"

text \<open>
  \<open>s1_harmonic_batch\<close> with \<open>parallel_tile\<close>, lines 516-542. \<open>s1_harmonic_each\<close> tells for a
  tile whether its task runs to its end or raises (it calls \<open>sys.exit\<close> when the tile has
  no clip). The result is the pool at the end and the three numbers of the log message:
  the total, \<open>success_count\<close> and \<open>failure_count\<close>.
\<close>

definition s1_harmonic_batch ::
  "(string \<Rightarrow> outcome) \<Rightarrow> nat \<Rightarrow> string list \<Rightarrow> string executor \<times> nat \<times> nat \<times> nat" where
  "s1_harmonic_batch s1_harmonic_each threads_number tiles =
     (let harmonic_executor = new_executor threads_number;
          (harmonic_executor, success_count, failure_count) =
             submit_loop harmonic_executor tiles 0 0;
          harmonic_executor = drain s1_harmonic_each harmonic_executor;
          harmonic_executor = close harmonic_executor
      in (harmonic_executor, length tiles, success_count, failure_count))"

text \<open>\<open>s2_wasp_batch\<close>, lines 703-720, with the same shape.\<close>

definition s2_wasp_batch ::
  "(string \<Rightarrow> outcome) \<Rightarrow> nat \<Rightarrow> string list \<Rightarrow> string executor \<times> nat \<times> nat \<times> nat" where
  "s2_wasp_batch s2_wasp threads_number tile_ids =
     (let wasp_executor = new_executor threads_number;
          (wasp_executor, success_count, failure_count) = submit_loop wasp_executor tile_ids 0 0;
          wasp_executor = drain s2_wasp wasp_executor;
          wasp_executor = close wasp_executor
      in (wasp_executor, length tile_ids, success_count, failure_count))"

section \<open>Element-wise operations and shapes\<close>

lemma nth_mat_map:
  "i < length A \<Longrightarrow> j < length (A ! i) \<Longrightarrow> mat_map f A ! i ! j = f (A ! i ! j)"
  by (simp add: mat_map_def)

lemma nth_mat_map2:
  "i < length A \<Longrightarrow> i < length B \<Longrightarrow> j < length (A ! i) \<Longrightarrow> j < length (B ! i) \<Longrightarrow>
   mat_map2 f A B ! i ! j = f (A ! i ! j) (B ! i ! j)"
  by (simp add: mat_map2_def)

lemma length_mat_map [simp]: "length (mat_map f A) = length A"
  by (simp add: mat_map_def)

lemma length_mat_map_row [simp]: "i < length A \<Longrightarrow> length (mat_map f A ! i) = length (A ! i)"
  by (simp add: mat_map_def)

lemma length_mat_map2 [simp]: "length (mat_map2 f A B) = min (length A) (length B)"
  by (simp add: mat_map2_def)

lemma length_mat_map2_row [simp]:
  "i < length A \<Longrightarrow> i < length B \<Longrightarrow>
   length (mat_map2 f A B ! i) = min (length (A ! i)) (length (B ! i))"
  by (simp add: mat_map2_def)

lemma same_shape_refl [simp]: "same_shape A A"
  by (simp add: same_shape_def)

lemma same_shape_sym: "same_shape A B \<Longrightarrow> same_shape B A"
  by (simp add: same_shape_def)

lemma same_shape_trans: "same_shape A B \<Longrightarrow> same_shape B C \<Longrightarrow> same_shape A C"
  by (simp add: same_shape_def)

lemma same_shape_length: "same_shape A B \<Longrightarrow> length A = length B"
  unfolding same_shape_def by (rule map_eq_imp_length_eq)

lemma same_shape_row: "same_shape A B \<Longrightarrow> i < length A \<Longrightarrow> length (A ! i) = length (B ! i)"
proof -
  assume s: "same_shape A B" and i: "i < length A"
  then have "map length A ! i = map length B ! i" by (simp add: same_shape_def)
  then show ?thesis using i same_shape_length [OF s] by simp
qed

lemma same_shapeI:
  "length A = length B \<Longrightarrow> (\<And>i. i < length A \<Longrightarrow> length (A ! i) = length (B ! i)) \<Longrightarrow> same_shape A B"
  unfolding same_shape_def by (rule nth_equalityI) simp_all

lemma same_shape_mat_map [simp]: "same_shape (mat_map f A) A"
  by (rule same_shapeI) simp_all

lemma same_shape_mat_map2: "same_shape A B \<Longrightarrow> same_shape (mat_map2 f A B) A"
  by (rule same_shapeI) (simp_all add: same_shape_length same_shape_row)

lemma nth_mat_map2_shape:
  "same_shape A B \<Longrightarrow> i < length A \<Longrightarrow> j < length (A ! i) \<Longrightarrow>
   mat_map2 f A B ! i ! j = f (A ! i ! j) (B ! i ! j)"
  using same_shape_length [of A B] same_shape_row [of A B i] by (simp add: nth_mat_map2)

lemma in_shape: "same_shape A B \<Longrightarrow> i < length B \<Longrightarrow> j < length (B ! i) \<Longrightarrow> i < length A \<and> j < length (A ! i)"
  using same_shape_length [of A B] same_shape_row [of A B i] by simp

lemma mat_map2_at:
  assumes "same_shape A S" "same_shape B S" "i < length S" "j < length (S ! i)"
  shows "mat_map2 f A B ! i ! j = f (A ! i ! j) (B ! i ! j)"
proof -
  have "i < length A \<and> j < length (A ! i)" by (rule in_shape [OF assms(1,3,4)])
  moreover have "same_shape A B" by (rule same_shape_trans [OF assms(1) same_shape_sym [OF assms(2)]])
  ultimately show ?thesis by (simp add: nth_mat_map2_shape)
qed


section \<open>Properties of the temporal alignment\<close>

lemma sort_eq_iff_sorted: "sort xs = xs \<longleftrightarrow> sorted (xs :: int list)"
  by (metis sorted_sort sorted_sort_id)

lemma adjust_doy_map:
  "adjust_doy doys start freq =
     map (\<lambda>d. if d - start \<ge> 0 then d - start else d - start + freq) doys"
  by (simp add: adjust_doy_def Let_def)

lemma adjust_sorted:
  assumes "doys = A @ B" "A \<noteq> []" "B \<noteq> []" "sorted A" "sorted B" "list_all (\<lambda>b. b < hd A) B"
    "list_all (\<lambda>d. 1 \<le> d \<and> d \<le> freq + 1) doys"
  shows "sorted (adjust_doy doys (hd doys) freq)"
    and "list_all (\<lambda>c. 0 \<le> c \<and> c \<le> freq) (adjust_doy doys (hd doys) freq)"
    and "\<not> sorted doys"
proof -
  let ?s = "hd A"
  have hd2: "hd (A @ B) = ?s" using assms(2) by simp
  have A_ge: "\<forall>a \<in> set A. ?s \<le> a"
    using assms(2,4) by (cases A) auto
  have B_lt: "\<forall>b \<in> set B. b < ?s" using assms(6) by (simp add: list_all_iff)
  have rng: "\<forall>d \<in> set A \<union> set B. 1 \<le> d \<and> d \<le> freq + 1"
    using assms(1,7) by (auto simp: list_all_iff)
  have sA: "?s \<in> set A" using assms(2) by simp
  have mapA: "map (\<lambda>d. if d - ?s \<ge> 0 then d - ?s else d - ?s + freq) A = map (\<lambda>d. d - ?s) A"
    using A_ge by (intro map_cong) auto
  have mapB: "map (\<lambda>d. if d - ?s \<ge> 0 then d - ?s else d - ?s + freq) B = map (\<lambda>d. d - ?s + freq) B"
    using B_lt by (intro map_cong) auto
  have "adjust_doy (A @ B) ?s freq =
      map (\<lambda>d. if d - ?s \<ge> 0 then d - ?s else d - ?s + freq) A @
      map (\<lambda>d. if d - ?s \<ge> 0 then d - ?s else d - ?s + freq) B"
    by (simp only: adjust_doy_map map_append)
  then have eq: "adjust_doy doys (hd doys) freq = map (\<lambda>d. d - ?s) A @ map (\<lambda>d. d - ?s + freq) B"
    by (simp only: mapA mapB hd2 assms(1))
  have s1: "sorted (map (\<lambda>d. d - ?s) A)"
    using assms(4) by (simp add: sorted_map sorted_wrt_iff_nth_less)
  have s2: "sorted (map (\<lambda>d. d - ?s + freq) B)"
    using assms(5) by (simp add: sorted_map sorted_wrt_iff_nth_less)
  have cross: "\<forall>a \<in> set A. \<forall>b \<in> set B. a - ?s \<le> b - ?s + freq"
  proof (intro ballI)
    fix a b assume "a \<in> set A" "b \<in> set B"
    then have "a \<le> freq + 1" "1 \<le> b" using rng by auto
    then show "a - ?s \<le> b - ?s + freq" by linarith
  qed
  show "sorted (adjust_doy doys (hd doys) freq)"
    unfolding eq using s1 s2 cross by (auto simp: sorted_append)
  show "list_all (\<lambda>c. 0 \<le> c \<and> c \<le> freq) (adjust_doy doys (hd doys) freq)"
  proof -
    have "1 \<le> ?s" using rng sA by auto
    have a: "\<forall>a \<in> set A. 0 \<le> a - ?s \<and> a - ?s \<le> freq"
    proof
      fix a assume "a \<in> set A"
      then have "?s \<le> a" "a \<le> freq + 1" using A_ge rng by auto
      with \<open>1 \<le> ?s\<close> show "0 \<le> a - ?s \<and> a - ?s \<le> freq" by linarith
    qed
    have b: "\<forall>b \<in> set B. 0 \<le> b - ?s + freq \<and> b - ?s + freq \<le> freq"
    proof
      fix b assume "b \<in> set B"
      then have "b < ?s" "1 \<le> b" using B_lt rng by auto
      moreover have "?s \<le> freq + 1" using rng sA by auto
      ultimately show "0 \<le> b - ?s + freq \<and> b - ?s + freq \<le> freq" by linarith
    qed
    show ?thesis unfolding eq using a b by (simp add: list_all_iff ball_Un)
  qed
  obtain b where b: "b \<in> set B" using assms(3) by (cases B) auto
  show "\<not> sorted doys"
    unfolding assms(1) using sA b B_lt by (fastforce simp: sorted_append)
qed

lemma adjust_range:
  assumes "doys \<noteq> []" "list_all (\<lambda>d. 1 \<le> d \<and> d \<le> freq + 1) doys"
  shows "list_all (\<lambda>c. 0 \<le> c \<and> c \<le> freq) (adjust_doy doys (hd doys) freq)"
proof -
  have r: "\<forall>d \<in> set doys. 1 \<le> d \<and> d \<le> freq + 1" using assms(2) by (simp add: list_all_iff)
  have "hd doys \<in> set doys" using assms(1) by simp
  then have s: "1 \<le> hd doys" "hd doys \<le> freq + 1" using r by auto
  have "0 \<le> (if d - hd doys \<ge> 0 then d - hd doys else d - hd doys + freq) \<and>
        (if d - hd doys \<ge> 0 then d - hd doys else d - hd doys + freq) \<le> freq"
    if "d \<in> set doys" for d
  proof -
    from that r have "1 \<le> d" "d \<le> freq + 1" by auto
    with s show ?thesis by auto
  qed
  then have "list_all (\<lambda>d. 0 \<le> (if d - hd doys \<ge> 0 then d - hd doys else d - hd doys + freq) \<and>
        (if d - hd doys \<ge> 0 then d - hd doys else d - hd doys + freq) \<le> freq) doys"
    unfolding list_all_iff by blast
  then show ?thesis unfolding adjust_doy_map list.pred_map comp_def .
qed

text \<open>
  Claim C3, as the code has it. A day-of-year sequence that is already non-decreasing is
  returned unmodified. Otherwise the first day of year is subtracted from every value and
  \<open>freq\<close> is added to every negative difference. When every day of year lies in
  \<open>1 .. freq + 1\<close> the result spans at most one period: two coordinates differ by at most
  \<open>freq\<close>, and the adjusted coordinates lie in \<open>0 .. freq\<close>. The result is non-decreasing
  when the series crosses the year boundary once (\<open>single_wrap\<close>); a series that runs over
  more than one year is not put in order, as the counterexample shows.
\<close>

theorem get_doy_single_wrap:
  "(sorted (sorted_doys dates) \<longrightarrow> get_doy dates freq = sorted_doys dates) \<and>
   (\<not> sorted (sorted_doys dates) \<longrightarrow>
      get_doy dates freq =
        map (\<lambda>d. if d - hd (sorted_doys dates) \<ge> 0 then d - hd (sorted_doys dates)
                 else d - hd (sorted_doys dates) + freq) (sorted_doys dates)) \<and>
   (in_period (sorted_doys dates) freq \<longrightarrow>
      (\<not> sorted (sorted_doys dates) \<longrightarrow>
         list_all (\<lambda>c. 0 \<le> c \<and> c \<le> freq) (get_doy dates freq)) \<and>
      (\<forall>a \<in> set (get_doy dates freq). \<forall>b \<in> set (get_doy dates freq). a - b \<le> freq)) \<and>
   (in_period (sorted_doys dates) freq \<and> single_wrap (sorted_doys dates) \<longrightarrow>
      \<not> sorted (sorted_doys dates) \<and> sorted (get_doy dates freq))"
proof -
  let ?d = "sorted_doys dates"
  have 1: "sorted ?d \<longrightarrow> get_doy dates freq = ?d"
    by (simp add: get_doy_def Let_def sort_eq_iff_sorted)
  have g: "get_doy dates freq = adjust_doy ?d (hd ?d) freq" if "\<not> sorted ?d"
    using that by (simp add: get_doy_def Let_def sort_eq_iff_sorted)
  have 2: "\<not> sorted ?d \<longrightarrow>
      get_doy dates freq =
        map (\<lambda>d. if d - hd ?d \<ge> 0 then d - hd ?d else d - hd ?d + freq) ?d"
    using g by (simp add: adjust_doy_map)
  have 3: "list_all (\<lambda>c. 0 \<le> c \<and> c \<le> freq) (get_doy dates freq)"
    if p: "in_period ?d freq" and n: "\<not> sorted ?d"
  proof -
    have "?d \<noteq> []" using n by auto
    from adjust_range [OF this] p show ?thesis by (simp add: g [OF n] in_period_def)
  qed
  have 4: "\<forall>a \<in> set (get_doy dates freq). \<forall>b \<in> set (get_doy dates freq). a - b \<le> freq"
    if p: "in_period ?d freq"
  proof (cases "sorted ?d")
    case True
    then have eq: "get_doy dates freq = ?d" using 1 by simp
    have r: "\<forall>d \<in> set ?d. 1 \<le> d \<and> d \<le> freq + 1"
      using p by (simp add: in_period_def list_all_iff)
    show ?thesis
    proof (intro ballI)
      fix a b
      assume "a \<in> set (get_doy dates freq)" "b \<in> set (get_doy dates freq)"
      then have "a \<in> set ?d" "b \<in> set ?d" using eq by simp_all
      with r have "a \<le> freq + 1" "1 \<le> b" by auto
      then show "a - b \<le> freq" by simp
    qed
  next
    case False
    from 3 [OF p False] have "\<forall>c \<in> set (get_doy dates freq). 0 \<le> c \<and> c \<le> freq"
      by (simp add: list_all_iff)
    then have r: "\<forall>c \<in> set (get_doy dates freq). 0 \<le> c \<and> c \<le> freq" .
    show ?thesis
    proof (intro ballI)
      fix a b
      assume "a \<in> set (get_doy dates freq)" "b \<in> set (get_doy dates freq)"
      with r have "a \<le> freq" "0 \<le> b" by auto
      then show "a - b \<le> freq" by simp
    qed
  qed
  have 5: "\<not> sorted ?d \<and> sorted (get_doy dates freq)"
    if p: "in_period ?d freq" and sw: "single_wrap ?d"
  proof -
    from sw obtain A B where AB: "?d = A @ B" "A \<noteq> []" "B \<noteq> []" "sorted A"
        "sorted B" "list_all (\<lambda>b. b < hd A) B"
      unfolding single_wrap_def by blast
    have rng: "list_all (\<lambda>d. 1 \<le> d \<and> d \<le> freq + 1) ?d" using p by (simp add: in_period_def)
    note r = adjust_sorted [OF AB rng]
    show ?thesis using r(1) r(3) g by simp
  qed
  show ?thesis using 1 2 3 4 5 by blast
qed

text \<open>
  Four acquisitions from November 2019 to February 2020, given out of order: one crossing
  of the year boundary.
\<close>

theorem get_doy_single_wrap_witness:
  "in_period (sorted_doys [Date 2020 1 10, Date 2019 11 1, Date 2019 12 15, Date 2020 2 20]) 365
   \<and> single_wrap (sorted_doys [Date 2020 1 10, Date 2019 11 1, Date 2019 12 15, Date 2020 2 20])
   \<and> get_doy [Date 2020 1 10, Date 2019 11 1, Date 2019 12 15, Date 2020 2 20] 365 = [0, 44, 70, 111]
   \<and> sorted (get_doy [Date 2020 1 10, Date 2019 11 1, Date 2019 12 15, Date 2020 2 20] 365)
   \<and> list_all (\<lambda>c. 0 \<le> c \<and> c \<le> 365)
        (get_doy [Date 2020 1 10, Date 2019 11 1, Date 2019 12 15, Date 2020 2 20] 365)"
proof -
  let ?ds = "[Date 2020 1 10, Date 2019 11 1, Date 2019 12 15, Date 2020 2 20]"
  have d: "sorted_doys ?ds = [305, 349, 10, 51]" by code_simp
  have "sorted_doys ?ds = [305, 349] @ [10, 51]" by (simp add: d)
  then have sw: "single_wrap (sorted_doys ?ds)"
    unfolding single_wrap_def by (intro conjI exI[of _ "[305, 349]"] exI[of _ "[10, 51]"]) simp_all
  have p: "in_period (sorted_doys ?ds) 365" by (simp add: d in_period_def)
  have v: "get_doy ?ds 365 = [0, 44, 70, 111]" by code_simp
  show ?thesis using get_doy_single_wrap [of ?ds 365] sw p v by blast
qed

text \<open>
  Three valid dates over thirteen months (1 November 2019, 1 February 2020, 15 November
  2020): the days of year 305, 32, 320 are not in order, and the aligned coordinates
  0, 92, 15 are not in order either.
\<close>

theorem get_doy_multi_year_counterexample:
  "list_all valid_date [Date 2019 11 1, Date 2020 2 1, Date 2020 11 15]
   \<and> \<not> sorted (sorted_doys [Date 2019 11 1, Date 2020 2 1, Date 2020 11 15])
   \<and> get_doy [Date 2019 11 1, Date 2020 2 1, Date 2020 11 15] 365 = [0, 92, 15]
   \<and> \<not> sorted (get_doy [Date 2019 11 1, Date 2020 2 1, Date 2020 11 15] 365)"
  by code_simp

section \<open>Properties of the harmonic design matrix\<close>

lemma tile_column_nth [simp]:
  "length (tile_column xs n) = length xs"
  "i < length xs \<Longrightarrow> tile_column xs n ! i = replicate n (xs ! i)"
  by (simp_all add: tile_column_def)

lemma tile_arange_nth [simp]:
  "length (tile_arange n m) = m"
  "i < m \<Longrightarrow> tile_arange n m ! i = map int [0..<n]"
  by (simp_all add: tile_arange_def)

lemma harmonic_value:
  "fl_cos (fl_sub (fl_div (fl_mul (fl_mul (Fin (2 * pi)) (Fin h)) (Fin t)) (Fin f)) (Fin p)) =
     (if f = 0 then NaN else Fin (cos (2 * pi * h * t / f - p)))"
  by (simp add: fl_sub_def signed_inf_def)

lemma getVariable_nth:
  assumes "0 < n" "i < length day_arr" "j < n"
  shows "\<exists>M. getVariable freq day_arr n = Inr M \<and> length M = length day_arr \<and>
           length (M ! i) = n \<and>
           M ! i ! j = (if j = 0 then Fin (of_int (day_arr ! i))
                        else if freq = 0 then NaN
                        else Fin (cos (2 * pi * of_int \<lceil>real j / 2\<rceil> * of_int (day_arr ! i) / of_int freq
                                        - real (j mod 2) * pi / 2)))"
proof -
  define t where "t = tile_column day_arr n"
  define nn where "nn = tile_arange n (length day_arr)"
  define n0 where "n0 = mat_map (\<lambda>v. Fin (of_int \<lceil>real_of_int v / 2\<rceil>)) nn"
  define num where "num = mat_map2 fl_mul (mat_map (\<lambda>h. fl_mul (Fin (2 * pi)) h) n0)
                  (mat_map (\<lambda>d. Fin (of_int d)) t)"
  define phase where "phase = mat_map (\<lambda>v. Fin (of_int (v mod 2) * pi / 2)) nn"
  define out where "out = mat_map fl_cos
                  (mat_map2 fl_sub (mat_map (\<lambda>v. fl_div v (Fin (of_int freq))) num) phase)"
  define M where "M = map2 (\<lambda>row trow. row[0 := Fin (of_int (trow ! 0))]) out t"
  have g: "getVariable freq day_arr n = Inr M"
    using assms(1) by (simp add: getVariable_def Let_def M_def out_def phase_def num_def n0_def nn_def t_def)
  have lt: "length t = length day_arr" "t ! i = replicate n (day_arr ! i)"
    using assms by (simp_all add: t_def)
  have ln: "length nn = length day_arr" "nn ! i = map int [0..<n]"
    using assms by (simp_all add: nn_def)
  have lnum: "length num = length day_arr" "length (num ! i) = n"
    using assms lt ln by (simp_all add: num_def n0_def)
  have lout: "length out = length day_arr" "length (out ! i) = n"
    using assms lt ln lnum by (simp_all add: out_def phase_def)
  have e_num: "num ! i ! j = fl_mul (fl_mul (Fin (2 * pi)) (Fin (of_int \<lceil>real j / 2\<rceil>))) (Fin (of_int (day_arr ! i)))"
    using assms lt ln by (simp add: num_def n0_def nth_mat_map2 nth_mat_map)
  have e_out: "out ! i ! j = fl_cos (fl_sub (fl_div (num ! i ! j) (Fin (of_int freq))) (Fin (real (j mod 2) * pi / 2)))"
  proof -
    have "int j mod 2 = int (j mod 2)" by (simp add: zmod_int)
    then have m2: "real_of_int (int j mod 2) = real (j mod 2)" by simp
    show ?thesis
      using assms lt ln lnum by (simp add: out_def phase_def nth_mat_map2 nth_mat_map m2)
  qed
  have lM: "length M = length day_arr" using lout lt by (simp add: M_def)
  have rowM: "M ! i = (out ! i)[0 := Fin (of_int (day_arr ! i))]"
    using assms lout lt by (simp add: M_def)
  have "length (M ! i) = n" using rowM lout by simp
  moreover have "M ! i ! j = (if j = 0 then Fin (of_int (day_arr ! i))
                        else if freq = 0 then NaN
                        else Fin (cos (2 * pi * of_int \<lceil>real j / 2\<rceil> * of_int (day_arr ! i) / of_int freq
                                        - real (j mod 2) * pi / 2)))"
    using assms lout by (simp add: rowM nth_list_update e_out e_num harmonic_value del: fl_mul.simps)
  ultimately show ?thesis using g lM by blast
qed

lemma getVariable_Inr: "0 < n \<Longrightarrow> \<exists>M. getVariable freq day_arr n = Inr M"
  by (simp add: getVariable_def Let_def)

lemma getVariable_length:
  "getVariable freq day_arr n = Inr M \<Longrightarrow> length M = length day_arr"
  by (auto simp: getVariable_def Let_def mat_map_def mat_map2_def tile_column_def tile_arange_def
      split: if_splits)

lemma ceiling_half_even: "even j \<Longrightarrow> \<lceil>real j / 2\<rceil> = int (j div 2)"
  by (auto elim!: evenE)

lemma ceiling_half_odd: "odd j \<Longrightarrow> \<lceil>real j / 2\<rceil> = int ((j + 1) div 2)"
proof -
  assume "odd j"
  then obtain m where j: "j = 2 * m + 1" by (auto elim: oddE)
  have "real j / 2 = real m + 1 / 2" by (simp add: j)
  then have "\<lceil>real j / 2\<rceil> = int m + 1" by (simp add: ceiling_eq_iff) 
  then show ?thesis by (simp add: j)
qed

lemma cos_shift_sin: "cos (x - pi / 2) = sin (x::real)"
  by (simp add: cos_diff)

text \<open>
  Claim C2. Called with \<open>n = 1 + 2k\<close> columns, \<open>_getVariable\<close> returns a matrix with one row
  per day and \<open>1 + 2k\<close> columns. Column 0 holds the days themselves. For \<open>1 \<le> j \<le> 2k\<close> the
  entry of day \<open>t\<close> is \<open>cos(2 pi ceil(j/2) t / freq - (j mod 2) pi / 2)\<close>: the cosine of the
  harmonic \<open>j/2\<close> for an even \<open>j\<close>, its sine for an odd \<open>j\<close>. (With \<open>freq = 0\<close> numpy divides
  by zero and every such entry is NaN.)
\<close>

theorem getVariable_design_matrix:
  "\<exists>M. getVariable freq day_arr (1 + 2 * k) = Inr M \<and> length M = length day_arr \<and>
     (\<forall>i < length day_arr.
        length (M ! i) = 1 + 2 * k \<and> M ! i ! 0 = Fin (of_int (day_arr ! i)) \<and>
        (\<forall>j. 1 \<le> j \<and> j \<le> 2 * k \<longrightarrow>
           M ! i ! j =
             (if freq = 0 then NaN
              else Fin (cos (2 * pi * of_int \<lceil>real j / 2\<rceil> * of_int (day_arr ! i) / of_int freq
                             - real (j mod 2) * pi / 2))) \<and>
           (freq \<noteq> 0 \<and> even j \<longrightarrow>
              M ! i ! j = Fin (cos (2 * pi * real (j div 2) * of_int (day_arr ! i) / of_int freq))) \<and>
           (freq \<noteq> 0 \<and> odd j \<longrightarrow>
              M ! i ! j = Fin (sin (2 * pi * real ((j + 1) div 2) * of_int (day_arr ! i) / of_int freq)))))"
proof -
  obtain M where M: "getVariable freq day_arr (1 + 2 * k) = Inr M"
    using getVariable_Inr [of "1 + 2 * k"] by auto
  have len: "length M = length day_arr" by (rule getVariable_length [OF M])
  have entry: "length (M ! i) = 1 + 2 * k \<and>
           M ! i ! j = (if j = 0 then Fin (of_int (day_arr ! i))
                        else if freq = 0 then NaN
                        else Fin (cos (2 * pi * of_int \<lceil>real j / 2\<rceil> * of_int (day_arr ! i) / of_int freq
                                        - real (j mod 2) * pi / 2)))"
    if "i < length day_arr" "j < 1 + 2 * k" for i j
    using getVariable_nth [of "1 + 2 * k" i day_arr j freq] that M by auto
  have "length (M ! i) = 1 + 2 * k \<and> M ! i ! 0 = Fin (of_int (day_arr ! i)) \<and>
        (\<forall>j. 1 \<le> j \<and> j \<le> 2 * k \<longrightarrow>
           M ! i ! j =
             (if freq = 0 then NaN
              else Fin (cos (2 * pi * of_int \<lceil>real j / 2\<rceil> * of_int (day_arr ! i) / of_int freq
                             - real (j mod 2) * pi / 2))) \<and>
           (freq \<noteq> 0 \<and> even j \<longrightarrow>
              M ! i ! j = Fin (cos (2 * pi * real (j div 2) * of_int (day_arr ! i) / of_int freq))) \<and>
           (freq \<noteq> 0 \<and> odd j \<longrightarrow>
              M ! i ! j = Fin (sin (2 * pi * real ((j + 1) div 2) * of_int (day_arr ! i) / of_int freq))))"
    if i: "i < length day_arr" for i
  proof (intro conjI allI impI)
    show "length (M ! i) = 1 + 2 * k" using entry [OF i, of 0] by simp
    show "M ! i ! 0 = Fin (of_int (day_arr ! i))" using entry [OF i, of 0] by simp
  next
    fix j assume j: "1 \<le> j \<and> j \<le> 2 * k"
    then have e: "M ! i ! j = (if freq = 0 then NaN
              else Fin (cos (2 * pi * of_int \<lceil>real j / 2\<rceil> * of_int (day_arr ! i) / of_int freq
                             - real (j mod 2) * pi / 2)))"
      using entry [OF i, of j] by simp
    show "M ! i ! j = (if freq = 0 then NaN
              else Fin (cos (2 * pi * of_int \<lceil>real j / 2\<rceil> * of_int (day_arr ! i) / of_int freq
                             - real (j mod 2) * pi / 2)))" by (rule e)
    {
      assume a: "freq \<noteq> 0 \<and> even j"
      then have "j mod 2 = 0" by presburger
      then show "M ! i ! j = Fin (cos (2 * pi * real (j div 2) * of_int (day_arr ! i) / of_int freq))"
        using a e by (simp add: ceiling_half_even)
    }
    {
      assume a: "freq \<noteq> 0 \<and> odd j"
      then have "j mod 2 = 1" by presburger
      then show "M ! i ! j = Fin (sin (2 * pi * real ((j + 1) div 2) * of_int (day_arr ! i) / of_int freq))"
        using a e by (simp add: ceiling_half_odd cos_shift_sin del: div_mult_self1 div_mult_self2 div_mult_self3 div_mult_self4)
    }
  qed
  then show ?thesis using M len by blast
qed

theorem getVariable_design_matrix_witness:
  "\<exists>M. getVariable 365 [0, 73] (1 + 2 * 1) = Inr M \<and> length M = 2 \<and> length (M ! 1) = 3 \<and>
     M ! 1 ! 0 = Fin 73 \<and> M ! 1 ! 1 = Fin (sin (2 * pi / 5)) \<and> M ! 1 ! 2 = Fin (cos (2 * pi / 5))"
proof -
  from getVariable_design_matrix [of 365 "[0, 73]" 1]
  obtain M where M: "getVariable 365 [0, 73] (1 + 2 * 1) = Inr M" "length M = length [0::int, 73]"
    and rows: "\<And>i. i < length [0::int, 73] \<Longrightarrow>
        length (M ! i) = 1 + 2 * 1 \<and> M ! i ! 0 = Fin (of_int ([0, 73] ! i)) \<and>
        (\<forall>j. 1 \<le> j \<and> j \<le> 2 * 1 \<longrightarrow>
           M ! i ! j =
             (if (365::int) = 0 then NaN
              else Fin (cos (2 * pi * of_int \<lceil>real j / 2\<rceil> * of_int ([0, 73] ! i) / of_int 365
                             - real (j mod 2) * pi / 2))) \<and>
           ((365::int) \<noteq> 0 \<and> even j \<longrightarrow>
              M ! i ! j = Fin (cos (2 * pi * real (j div 2) * of_int ([0, 73] ! i) / of_int 365))) \<and>
           ((365::int) \<noteq> 0 \<and> odd j \<longrightarrow>
              M ! i ! j = Fin (sin (2 * pi * real ((j + 1) div 2) * of_int ([0, 73] ! i) / of_int 365))))"
    by blast
  have i1: "(1::nat) < length [0::int, 73]" by simp
  note r = rows [OF i1]
  have "length (M ! 1) = 3" "M ! 1 ! 0 = Fin 73" using r by simp_all
  moreover have "M ! 1 ! 2 = Fin (cos (2 * pi / 5))"
    using r [THEN conjunct2, THEN conjunct2, rule_format, of 2, THEN conjunct2, THEN conjunct1] by simp
  moreover have "M ! 1 ! 1 = Fin (sin (2 * pi / 5))"
    using r [THEN conjunct2, THEN conjunct2, rule_format, of 1, THEN conjunct2, THEN conjunct2] by simp
  ultimately show ?thesis using M by simp
qed

section \<open>Properties of the conversion to single precision\<close>

lemma pow2_powr: "pow2 e = 2 powr (of_int e)"
proof (cases "0 \<le> e")
  case True
  then show ?thesis by (simp add: pow2_def powr_realpow [symmetric])
next
  case False
  then have "2 powr (of_int e) = 2 powr (- real (nat (- e)))" by simp
  also have "\<dots> = 1 / 2 ^ nat (- e)" by (simp only: powr_minus powr_realpow) (simp add: field_simps)
  finally show ?thesis using False by (simp add: pow2_def)
qed

lemma pow2_pos [simp]: "0 < pow2 e"
  by (simp add: pow2_powr)

lemma pow2_nonneg [simp]: "0 \<le> pow2 e"
  by (simp add: pow2_powr)

lemma pow2_not_neg [simp]: "\<not> pow2 e < 0"
  by (simp add: not_less)

lemma pow2_neq0 [simp]: "pow2 e \<noteq> 0"
  using pow2_pos [of e] by linarith

lemma pow2_mono: "a \<le> b \<Longrightarrow> pow2 a \<le> pow2 b"
  by (simp add: pow2_powr)

lemma pow2_less_cancel: "pow2 a < pow2 b \<Longrightarrow> a < b"
  by (simp add: pow2_powr)

lemma pow2_add: "pow2 (a + b) = pow2 a * pow2 b"
  by (simp add: pow2_powr powr_add)

lemma pow2_of_nat: "0 \<le> e \<Longrightarrow> pow2 e = of_int (2 ^ nat e)"
  by (simp add: pow2_def)

lemma pow2_split: "pow2 a = pow2 (a - b) * pow2 b"
  using pow2_add [of "a - b" b] by simp

subsection \<open>The binary exponent\<close>

lemma float32_exponent_ge: "- 126 \<le> float32_exponent x"
  by (simp add: float32_exponent_def)

lemma float32_exponent_upper:
  assumes "x \<noteq> 0"
  shows "\<bar>x\<bar> < pow2 (float32_exponent x + 1)"
proof -
  have pos: "0 < \<bar>x\<bar>" using assms by simp
  have "\<bar>x\<bar> < 2 powr (of_int (\<lfloor>log 2 \<bar>x\<bar>\<rfloor> + 1))"
    using floor_log_eq_powr_iff [OF pos, of 2 "\<lfloor>log 2 \<bar>x\<bar>\<rfloor>"] by simp
  also have "\<dots> = pow2 (\<lfloor>log 2 \<bar>x\<bar>\<rfloor> + 1)" by (simp only: pow2_powr)
  also have "\<dots> \<le> pow2 (float32_exponent x + 1)"
    by (rule pow2_mono) (simp add: float32_exponent_def)
  finally show ?thesis .
qed

lemma float32_exponent_lower:
  assumes "x \<noteq> 0"
  shows "float32_exponent x = - 126 \<or> pow2 (float32_exponent x) \<le> \<bar>x\<bar>"
proof -
  have pos: "0 < \<bar>x\<bar>" using assms by simp
  have l: "pow2 \<lfloor>log 2 \<bar>x\<bar>\<rfloor> \<le> \<bar>x\<bar>"
    using floor_log_eq_powr_iff [OF pos, of 2 "\<lfloor>log 2 \<bar>x\<bar>\<rfloor>"] by (simp add: pow2_powr)
  show ?thesis
  proof (cases "- 126 \<le> \<lfloor>log 2 \<bar>x\<bar>\<rfloor>")
    case True
    then have "float32_exponent x = \<lfloor>log 2 \<bar>x\<bar>\<rfloor>" by (simp add: float32_exponent_def)
    then show ?thesis using l by simp
  next
    case False
    then show ?thesis by (simp add: float32_exponent_def)
  qed
qed

lemma float32_exponent_eq:
  assumes "x \<noteq> 0" "- 126 \<le> e" "e = - 126 \<or> pow2 e \<le> \<bar>x\<bar>" "\<bar>x\<bar> < pow2 (e + 1)"
  shows "float32_exponent x = e"
proof -
  let ?E = "float32_exponent x"
  note u = float32_exponent_upper [OF assms(1)] and l = float32_exponent_lower [OF assms(1)]
    and g = float32_exponent_ge [of x]
  have "?E \<le> e"
  proof (cases "?E = - 126")
    case True
    then show ?thesis using assms(2) by simp
  next
    case False
    then have "pow2 ?E \<le> \<bar>x\<bar>" using l by simp
    then have "pow2 ?E < pow2 (e + 1)" using assms(4) by simp
    then show ?thesis using pow2_less_cancel by fastforce
  qed
  moreover have "e \<le> ?E"
  proof (cases "e = - 126")
    case True
    then show ?thesis using g by simp
  next
    case False
    then have "pow2 e \<le> \<bar>x\<bar>" using assms(3) by simp
    then have "pow2 e < pow2 (?E + 1)" using u by simp
    then show ?thesis using pow2_less_cancel by fastforce
  qed
  ultimately show ?thesis by simp
qed

lemma float32_exponent_le:
  assumes "x \<noteq> 0" "- 126 \<le> e" "\<bar>x\<bar> < pow2 (e + 1)"
  shows "float32_exponent x \<le> e"
proof (cases "float32_exponent x = - 126")
  case True
  then show ?thesis using assms(2) by simp
next
  case False
  then have "pow2 (float32_exponent x) \<le> \<bar>x\<bar>" using float32_exponent_lower [OF assms(1)] by simp
  then have "pow2 (float32_exponent x) < pow2 (e + 1)" using assms(3) by simp
  then show ?thesis using pow2_less_cancel by fastforce
qed

subsection \<open>Rounding to the nearest integer, ties to even\<close>



lemma round_half_even_of_int [simp]: "round_half_even (of_int n) = n"
  by (simp add: round_half_even_def)

subsection \<open>The rounded value\<close>

lemma round32_eval:
  assumes "x \<noteq> 0" "- 126 \<le> e" "e = - 126 \<or> pow2 e \<le> \<bar>x\<bar>" "\<bar>x\<bar> < pow2 (e + 1)"
  shows "round32 x =
     (let y = of_int (round_half_even (x / pow2 (e - 23))) * pow2 (e - 23)
      in if pow2 128 \<le> \<bar>y\<bar> then (if 0 < x then PInf else NInf) else Fin y)"
  using assms(1) by (simp add: round32_def float32_exponent_eq [OF assms] Let_def)


lemma round32_not_nan [simp]: "round32 x \<noteq> NaN"
  by (simp add: round32_def Let_def)

lemma f32_isnan [simp]: "isnan (f32 v) \<longleftrightarrow> isnan v"
  by (cases v) (simp_all add: isnan_def)








text \<open>
  A number with a significand of at most 24 bits and an exponent in range is a value of
  single precision: the conversion returns it.
\<close>

lemma round32_exact:
  assumes "x = of_int n * pow2 q" "\<bar>n\<bar> < 2 ^ 24" "- 149 \<le> q" "q \<le> 104"
  shows "round32 x = Fin x"
proof (cases "x = 0")
  case True
  then show ?thesis by (simp add: round32_def)
next
  case False
  define E where "E = float32_exponent x"
  define d where "d = pow2 (E - 23)"
  have d: "d \<noteq> 0" by (simp add: d_def)
  have "\<bar>x\<bar> = of_int \<bar>n\<bar> * pow2 q" by (simp add: assms(1) abs_mult)
  also have "\<dots> < of_int (2 ^ 24) * pow2 q"
    by (intro mult_strict_right_mono) (use assms(2) in simp_all)
  also have "\<dots> = pow2 (q + 23 + 1)" using pow2_add [of 24 q] by (simp add: pow2_def)
  finally have ub: "\<bar>x\<bar> < pow2 (q + 23 + 1)" .
  from float32_exponent_le [OF False _ ub] assms(3) have "E \<le> q + 23" by (simp add: E_def)
  then have k: "0 \<le> q - (E - 23)" by simp
  have "pow2 q = pow2 (q - (E - 23)) * pow2 (E - 23)" by (rule pow2_split)
  then have pq: "pow2 q = of_int (2 ^ nat (q - (E - 23))) * d"
    by (simp only: pow2_of_nat [OF k] d_def)
  have xd: "x = of_int (n * 2 ^ nat (q - (E - 23))) * d"
    unfolding assms(1) pq by (simp only: of_int_mult mult.assoc)
  have "x / d = of_int (n * 2 ^ nat (q - (E - 23))) * d / d" using xd by simp
  also have "\<dots> = of_int (n * 2 ^ nat (q - (E - 23)))" using d by simp
  finally have "round_half_even (x / d) = n * 2 ^ nat (q - (E - 23))"
    by (simp only: round_half_even_of_int)
  then have y: "of_int (round_half_even (x / d)) * d = x" using xd by simp
  have lt: "\<not> pow2 128 \<le> \<bar>x\<bar>"
  proof -
    have "pow2 (q + 23 + 1) \<le> pow2 128" by (rule pow2_mono) (use assms(4) in simp)
    then show ?thesis using ub by linarith
  qed
  have "round32 x =
      (if pow2 128 \<le> \<bar>of_int (round_half_even (x / d)) * d\<bar>
       then (if 0 < x then PInf else NInf) else Fin (of_int (round_half_even (x / d)) * d))"
    using False by (simp add: round32_def Let_def d_def E_def)
  then show ?thesis unfolding y using lt by simp
qed

lemma round32_numeral [simp]:
  "(numeral k :: int) < 16777216 \<Longrightarrow> round32 (numeral k) = Fin (numeral k)"
  using round32_exact [of "numeral k" "numeral k" 0] by (simp add: pow2_def)

lemma round32_neg_numeral [simp]:
  "(numeral k :: int) < 16777216 \<Longrightarrow> round32 (- numeral k) = Fin (- numeral k)"
  using round32_exact [of "- numeral k" "- numeral k" 0] by (simp add: pow2_def)

lemma round32_half_numeral [simp]:
  "(numeral k :: int) < 16777216 \<Longrightarrow> round32 (numeral k / 2) = Fin (numeral k / 2)"
  using round32_exact [of "numeral k / 2" "numeral k" "- 1"] by (simp add: pow2_def)

lemma round32_0 [simp]: "round32 0 = Fin 0"
  by (simp add: round32_def)

lemma round32_1 [simp]: "round32 1 = Fin 1"
  using round32_exact [of 1 1 0] by (simp add: pow2_def)

section \<open>Properties of the guided filter\<close>

lemma boxfilter_shape: "shape_preserving bf \<Longrightarrow> same_shape (boxfilter bf A k) A"
  by (simp add: shape_preserving_def boxfilter_def)

lemma gf_cov_shape:
  "shape_preserving bf \<Longrightarrow> same_shape fsrc src \<Longrightarrow> same_shape (gf_cov bf fsrc src k) fsrc"
proof -
  assume sp: "shape_preserving bf" and ss: "same_shape fsrc src"
  have 1: "same_shape (boxfilter bf (mat_map2 mul32 fsrc src) k) fsrc"
    by (rule same_shape_trans [OF boxfilter_shape [OF sp] same_shape_mat_map2 [OF ss]])
  have 2: "same_shape (boxfilter bf fsrc k) (boxfilter bf src k)"
    by (rule same_shape_trans [OF boxfilter_shape [OF sp]
          same_shape_trans [OF ss same_shape_sym [OF boxfilter_shape [OF sp]]]])
  have 3: "same_shape (mat_map2 mul32 (boxfilter bf fsrc k) (boxfilter bf src k)) fsrc"
    by (rule same_shape_trans [OF same_shape_mat_map2 [OF 2] boxfilter_shape [OF sp]])
  have "same_shape (boxfilter bf (mat_map2 mul32 fsrc src) k)
          (mat_map2 mul32 (boxfilter bf fsrc k) (boxfilter bf src k))"
    by (rule same_shape_trans [OF 1 same_shape_sym [OF 3]])
  from same_shape_trans [OF same_shape_mat_map2 [OF this] 1]
  show ?thesis by (simp add: gf_cov_def Let_def)
qed

lemma gf_var_shape: "shape_preserving bf \<Longrightarrow> same_shape (gf_var bf fsrc k) fsrc"
proof -
  assume sp: "shape_preserving bf"
  have 1: "same_shape (boxfilter bf (mat_map2 mul32 fsrc fsrc) k) fsrc"
    by (rule same_shape_trans [OF boxfilter_shape [OF sp] same_shape_mat_map2 [OF same_shape_refl]])
  have 3: "same_shape (mat_map2 mul32 (boxfilter bf fsrc k) (boxfilter bf fsrc k)) fsrc"
    by (rule same_shape_trans [OF same_shape_mat_map2 [OF same_shape_refl] boxfilter_shape [OF sp]])
  have "same_shape (boxfilter bf (mat_map2 mul32 fsrc fsrc) k)
          (mat_map2 mul32 (boxfilter bf fsrc k) (boxfilter bf fsrc k))"
    by (rule same_shape_trans [OF 1 same_shape_sym [OF 3]])
  from same_shape_trans [OF same_shape_mat_map2 [OF this] 1]
  show ?thesis by (simp add: gf_var_def Let_def)
qed

lemma gf_divisor_shape: "shape_preserving bf \<Longrightarrow> same_shape (gf_divisor bf fsrc k eps) fsrc"
  unfolding gf_divisor_def by (rule same_shape_trans [OF same_shape_mat_map gf_var_shape])

lemma gf_a_shape:
  assumes "shape_preserving bf" "same_shape fsrc src"
  shows "same_shape (gf_a bf fsrc src k eps) fsrc"
proof -
  have "same_shape (gf_cov bf fsrc src k) (gf_divisor bf fsrc k eps)"
    by (rule same_shape_trans [OF gf_cov_shape [OF assms] same_shape_sym [OF gf_divisor_shape [OF assms(1)]]])
  from same_shape_trans [OF same_shape_mat_map2 [OF this] gf_cov_shape [OF assms]]
  show ?thesis by (simp add: gf_a_def)
qed

lemma gf_b_shape:
  assumes "shape_preserving bf" "same_shape fsrc src"
  shows "same_shape (gf_b bf fsrc src k eps) fsrc"
proof -
  have g: "same_shape (boxfilter bf fsrc k) fsrc" by (rule boxfilter_shape [OF assms(1)])
  have i: "same_shape (boxfilter bf src k) fsrc"
    by (rule same_shape_trans [OF boxfilter_shape [OF assms(1)] same_shape_sym [OF assms(2)]])
  have "same_shape (gf_a bf fsrc src k eps) (boxfilter bf fsrc k)"
    by (rule same_shape_trans [OF gf_a_shape [OF assms] same_shape_sym [OF g]])
  from same_shape_trans [OF same_shape_mat_map2 [OF this] gf_a_shape [OF assms]]
  have m: "same_shape (mat_map2 mul32 (gf_a bf fsrc src k eps) (boxfilter bf fsrc k)) fsrc" .
  have "same_shape (boxfilter bf src k) (mat_map2 mul32 (gf_a bf fsrc src k eps) (boxfilter bf fsrc k))"
    by (rule same_shape_trans [OF i same_shape_sym [OF m]])
  from same_shape_trans [OF same_shape_mat_map2 [OF this] i]
  show ?thesis by (simp add: gf_b_def Let_def)
qed

lemma guidedfilter_shape:
  assumes "shape_preserving bf" "same_shape fsrc src"
  shows "same_shape (guidedfilter bf fsrc src k eps) fsrc"
proof -
  have ma: "same_shape (boxfilter bf (gf_a bf fsrc src k eps) k) fsrc"
    by (rule same_shape_trans [OF boxfilter_shape [OF assms(1)] gf_a_shape [OF assms]])
  have mb: "same_shape (boxfilter bf (gf_b bf fsrc src k eps) k) fsrc"
    by (rule same_shape_trans [OF boxfilter_shape [OF assms(1)] gf_b_shape [OF assms]])
  from same_shape_trans [OF same_shape_mat_map2 [OF ma] ma]
  have p: "same_shape (mat_map2 mul32 (boxfilter bf (gf_a bf fsrc src k eps) k) fsrc) fsrc" .
  have "same_shape (mat_map2 mul32 (boxfilter bf (gf_a bf fsrc src k eps) k) fsrc)
          (boxfilter bf (gf_b bf fsrc src k eps) k)"
    by (rule same_shape_trans [OF p same_shape_sym [OF mb]])
  from same_shape_trans [OF same_shape_mat_map2 [OF this] p]
  show ?thesis by (simp add: guidedfilter_def Let_def)
qed


subsection \<open>The box filter\<close>

lemma window_filter_shape: "shape_preserving window_filter"
  unfolding shape_preserving_def
  by (intro allI same_shapeI) (simp_all add: window_filter_def)




subsection \<open>The divisor\<close>


subsection \<open>The box filter of kernel size 3 on an image of one row and two columns\<close>


lemma upt_0_2: "[0..<2] = [0, 1]"
  by (simp add: upt_rec numeral_2_eq_2)









subsection \<open>The band loop of \<open>guided_filter\<close>\<close>

lemma band_loop_fields:
  "width (band_loop bf k e img idx out_data) = width out_data"
  "height (band_loop bf k e img idx out_data) = height out_data"
  "geotransform (band_loop bf k e img idx out_data) = geotransform out_data"
  "projection (band_loop bf k e img idx out_data) = projection out_data"
  "length (bands (band_loop bf k e img idx out_data)) = length (bands out_data)"
  by (induction idx arbitrary: out_data) simp_all

lemma band_loop_nth:
  "distinct idx \<Longrightarrow> b < length (bands out_data) \<Longrightarrow>
   bands (band_loop bf k e img idx out_data) ! b =
     (if b \<in> set idx then filter_band bf k e (bands img ! b) (bands out_data ! b)
      else bands out_data ! b)"
proof (induction idx arbitrary: out_data)
  case Nil
  then show ?case by simp
next
  case (Cons i rest)
  let ?o = "out_data\<lparr>bands := (bands out_data)
          [i := filter_band bf k e (bands img ! i) (bands out_data ! i)]\<rparr>"
  have d: "distinct rest" "i \<notin> set rest" using Cons.prems by simp_all
  have l: "b < length (bands ?o)" using Cons.prems by simp
  note ih = Cons.IH [OF d(1) l]
  show ?case
  proof (cases "b = i")
    case True
    then show ?thesis using ih d(2) Cons.prems(2) by simp
  next
    case False
    then show ?thesis using ih Cons.prems(2) by simp
  qed
qed

lemma filter_band_declared:
  "nodata src_band = Some nd \<Longrightarrow>
   filter_band bf k e src_band outband =
     outband\<lparr>nodata := Some nd,
       pixels := restore (nodata_cond nd) (mat_map f32 (pixels src_band))
         (guidedfilter bf (substitute (nodata_cond nd) (mat_map f32 (pixels src_band)))
            (substitute (nodata_cond nd) (mat_map f32 (pixels src_band))) k e)\<rparr>"
  by (simp add: filter_band_def nodata_cond_def Let_def)

lemma filter_band_undeclared:
  "nodata src_band = None \<Longrightarrow>
   filter_band bf k e src_band outband =
     outband\<lparr>pixels := guidedfilter bf (mat_map f32 (pixels src_band))
       (mat_map f32 (pixels src_band)) k e\<rparr>"
  by (simp add: filter_band_def Let_def)

lemma guided_filter_written:
  assumes "out_format = ''ENVI'' \<or> out_format = ''GTiff''"
  shows "\<exists>out. fst (guided_filter bf img k e out_format) = Some out \<and>
           length (bands out) = length (bands img) \<and>
           geotransform out = geotransform img \<and> projection out = projection img \<and>
           width out = width img \<and> height out = height img \<and>
           (\<forall>b < length (bands img).
              bands out ! b = filter_band bf k e (bands img ! b)
                \<lparr>nodata = None, pixels = replicate (height img) (replicate (width img) (Fin 0))\<rparr>)"
proof -
  let ?c = "create_raster (width img) (height img) (length (bands img))"
  let ?l = "band_loop bf k e img [0..<length (bands img)] ?c"
  let ?out = "?l\<lparr>geotransform := geotransform img, projection := projection img\<rparr>"
  have f: "fst (guided_filter bf img k e out_format) = Some ?out"
    using assms by (auto simp: guided_filter_def Let_def)
  have lc: "length (bands ?c) = length (bands img)" by (simp add: create_raster_def)
  have nb: "bands ?out ! b = filter_band bf k e (bands img ! b)
                \<lparr>nodata = None, pixels = replicate (height img) (replicate (width img) (Fin 0))\<rparr>"
    if "b < length (bands img)" for b
  proof -
    have "b < length (bands ?c)" using that lc by simp
    from band_loop_nth [OF distinct_upt this, of bf k e img 0 "length (bands img)"] that
    show ?thesis by (simp add: create_raster_def)
  qed
  have "length (bands ?out) = length (bands img)" by (simp add: band_loop_fields lc)
  moreover have "width ?out = width img" "height ?out = height img"
    by (simp_all add: band_loop_fields create_raster_def)
  ultimately show ?thesis using f nb by (intro exI [of _ ?out]) simp
qed

lemma restore_at:
  assumes "same_shape F R" "i < length R" "j < length (R ! i)"
  shows "restore c R F ! i ! j = (if c (R ! i ! j) then R ! i ! j else F ! i ! j)"
  unfolding restore_def
  by (simp add: mat_map2_at [OF same_shape_refl assms])

lemma substitute_at:
  assumes "i < length R" "j < length (R ! i)"
  shows "substitute c R ! i ! j = (if c (R ! i ! j) then Fin (- 9999) else R ! i ! j)"
  unfolding substitute_def using assms by (simp add: nth_mat_map)

lemma substitute_shape: "same_shape (substitute c R) R"
  by (simp add: substitute_def)

lemma guided_filter_raises:
  "snd (guided_filter bf img k e out_format) =
     (if out_format = ''ENVI'' \<or> out_format = ''GTiff'' then
        (if list_ex (\<lambda>b. nodata b \<noteq> None) (bands img) then None else Some UnboundLocalError)
      else Some SystemExit)"
  by (simp add: guided_filter_def Let_def)

text \<open>
  A pixel equal to the declared no-data value, or NaN when that value is NaN, passes the
  test of the code after the conversion to single precision.
\<close>

lemma nodata_cond_sentinel:
  "(if isnan nd then isnan p else fl_eq p nd) \<Longrightarrow> nodata_cond nd (f32 p)"
  by (auto simp: nodata_cond_def fl_eq_def)

lemma guided_filter_nodata_pixel:
  assumes "shape_preserving bf"
    and "out_format = ''ENVI'' \<or> out_format = ''GTiff''"
    and "b < length (bands img)"
    and "nodata (bands img ! b) = Some nd"
    and "i < length (pixels (bands img ! b))"
    and "j < length (pixels (bands img ! b) ! i)"
    and "nodata_cond nd (f32 (pixels (bands img ! b) ! i ! j))"
  shows "\<exists>out. fst (guided_filter bf img ksize eps out_format) = Some out \<and>
           pixels (bands out ! b) =
             restore (nodata_cond nd) (mat_map f32 (pixels (bands img ! b)))
               (guidedfilter bf
                  (substitute (nodata_cond nd) (mat_map f32 (pixels (bands img ! b))))
                  (substitute (nodata_cond nd) (mat_map f32 (pixels (bands img ! b))))
                  ksize eps) \<and>
           substitute (nodata_cond nd) (mat_map f32 (pixels (bands img ! b))) ! i ! j =
             Fin (- 9999) \<and>
           pixels (bands out ! b) ! i ! j = f32 (pixels (bands img ! b) ! i ! j) \<and>
           nodata (bands out ! b) = Some nd \<and>
           geotransform out = geotransform img \<and> projection out = projection img"
proof -
  let ?raw = "mat_map f32 (pixels (bands img ! b))"
  let ?band = "substitute (nodata_cond nd) ?raw"
  let ?bf = "guidedfilter bf ?band ?band ksize eps"
  obtain out where out: "fst (guided_filter bf img ksize eps out_format) = Some out"
    and geo: "geotransform out = geotransform img" "projection out = projection img"
    and bnd: "bands out ! b = filter_band bf ksize eps (bands img ! b)
                \<lparr>nodata = None, pixels = replicate (height img) (replicate (width img) (Fin 0))\<rparr>"
    using guided_filter_written [OF assms(2), of bf img ksize eps] assms(3) by blast
  have i: "i < length ?raw" and j: "j < length (?raw ! i)" using assms(5,6) by simp_all
  have at: "?raw ! i ! j = f32 (pixels (bands img ! b) ! i ! j)"
    using assms(5,6) by (simp add: nth_mat_map)
  have c: "nodata_cond nd (?raw ! i ! j)" using assms(7) by (simp only: at)
  have px: "pixels (bands out ! b) = restore (nodata_cond nd) ?raw ?bf"
    and nd: "nodata (bands out ! b) = Some nd"
    by (simp_all add: bnd filter_band_declared [OF assms(4)])
  have sh: "same_shape ?bf ?raw"
    by (rule same_shape_trans [OF guidedfilter_shape [OF assms(1) same_shape_refl] substitute_shape])
  have r: "restore (nodata_cond nd) ?raw ?bf ! i ! j = ?raw ! i ! j"
    using c by (simp add: restore_at [OF sh i j])
  have s: "?band ! i ! j = Fin (- 9999)"
    using c by (simp add: substitute_at [OF i j])
  show ?thesis using out px nd r s geo at by simp
qed

text \<open>
  Claim C5, as the code has it. In a band that declares a no-data value \<open>nd\<close>, the no-data
  locations are those where the pixel converted to single precision passes the test of
  the code: it is NaN when \<open>nd\<close> is NaN, equal to \<open>float32(nd)\<close> otherwise. A pixel equal to
  \<open>nd\<close>, or NaN when \<open>nd\<close> is NaN, is at such a location. The array handed to the filter is
  the converted band with -9999 at the no-data locations; the output band is the filtered
  array with the converted pixels put back there: at a no-data location the output pixel
  is the source pixel converted to single precision, so the source pixel itself when
  that is a value of single precision. The output band carries the no-data value \<open>nd\<close>,
  and the output dataset the source's geotransform and projection.
\<close>

theorem guided_filter_nodata_preserved:
  assumes "shape_preserving bf"
    and "out_format = ''ENVI'' \<or> out_format = ''GTiff''"
    and "b < length (bands img)"
    and "nodata (bands img ! b) = Some nd"
    and "i < length (pixels (bands img ! b))"
    and "j < length (pixels (bands img ! b) ! i)"
    and "nodata_cond nd (f32 (pixels (bands img ! b) ! i ! j))"
  shows "(\<forall>p. (if isnan nd then isnan p else fl_eq p nd) \<longrightarrow> nodata_cond nd (f32 p)) \<and>
         (\<exists>out. fst (guided_filter bf img ksize eps out_format) = Some out \<and>
           pixels (bands out ! b) =
             restore (nodata_cond nd) (mat_map f32 (pixels (bands img ! b)))
               (guidedfilter bf
                  (substitute (nodata_cond nd) (mat_map f32 (pixels (bands img ! b))))
                  (substitute (nodata_cond nd) (mat_map f32 (pixels (bands img ! b))))
                  ksize eps) \<and>
           substitute (nodata_cond nd) (mat_map f32 (pixels (bands img ! b))) ! i ! j =
             Fin (- 9999) \<and>
           pixels (bands out ! b) ! i ! j = f32 (pixels (bands img ! b) ! i ! j) \<and>
           (f32 (pixels (bands img ! b) ! i ! j) = pixels (bands img ! b) ! i ! j \<longrightarrow>
              pixels (bands out ! b) ! i ! j = pixels (bands img ! b) ! i ! j) \<and>
           nodata (bands out ! b) = Some nd \<and>
           geotransform out = geotransform img \<and> projection out = projection img)"
proof -
  from guided_filter_nodata_pixel [OF assms, of ksize eps]
  obtain out where o: "fst (guided_filter bf img ksize eps out_format) = Some out"
      "pixels (bands out ! b) =
             restore (nodata_cond nd) (mat_map f32 (pixels (bands img ! b)))
               (guidedfilter bf
                  (substitute (nodata_cond nd) (mat_map f32 (pixels (bands img ! b))))
                  (substitute (nodata_cond nd) (mat_map f32 (pixels (bands img ! b))))
                  ksize eps)"
      "substitute (nodata_cond nd) (mat_map f32 (pixels (bands img ! b))) ! i ! j = Fin (- 9999)"
      "pixels (bands out ! b) ! i ! j = f32 (pixels (bands img ! b) ! i ! j)"
      "nodata (bands out ! b) = Some nd"
      "geotransform out = geotransform img" "projection out = projection img"
    by blast
  have "\<forall>p. (if isnan nd then isnan p else fl_eq p nd) \<longrightarrow> nodata_cond nd (f32 p)"
    using nodata_cond_sentinel by blast
  moreover have "\<exists>out. fst (guided_filter bf img ksize eps out_format) = Some out \<and>
           pixels (bands out ! b) =
             restore (nodata_cond nd) (mat_map f32 (pixels (bands img ! b)))
               (guidedfilter bf
                  (substitute (nodata_cond nd) (mat_map f32 (pixels (bands img ! b))))
                  (substitute (nodata_cond nd) (mat_map f32 (pixels (bands img ! b))))
                  ksize eps) \<and>
           substitute (nodata_cond nd) (mat_map f32 (pixels (bands img ! b))) ! i ! j =
             Fin (- 9999) \<and>
           pixels (bands out ! b) ! i ! j = f32 (pixels (bands img ! b) ! i ! j) \<and>
           (f32 (pixels (bands img ! b) ! i ! j) = pixels (bands img ! b) ! i ! j \<longrightarrow>
              pixels (bands out ! b) ! i ! j = pixels (bands img ! b) ! i ! j) \<and>
           nodata (bands out ! b) = Some nd \<and>
           geotransform out = geotransform img \<and> projection out = projection img"
    using o by (intro exI [of _ out]) simp
  ultimately show ?thesis by (rule conjI)
qed

text \<open>
  One band of two pixels whose no-data value is 0, the first pixel 0; the box filter that
  computes the window means, kernel size 3. The first pixel passes the test, the filter
  receives -9999 in its place, and the output holds 0 there.
\<close>

theorem guided_filter_nodata_preserved_witness:
  "shape_preserving window_filter
   \<and> nodata_cond (Fin 0) (f32 (Fin 0))
   \<and> (\<exists>out. fst (guided_filter window_filter
              \<lparr>width = 2, height = 1, bands = [\<lparr>nodata = Some (Fin 0), pixels = [[Fin 0, Fin 5]]\<rparr>],
                geotransform = [10, 1, 0, 20, 0, - 1], projection = ''WGS84''\<rparr> 3 0 ''ENVI'') = Some out
     \<and> substitute (nodata_cond (Fin 0)) (mat_map f32 [[Fin 0, Fin 5]]) = [[Fin (- 9999), Fin 5]]
     \<and> pixels (bands out ! 0) ! 0 ! 0 = Fin 0 \<and> nodata (bands out ! 0) = Some (Fin 0)
     \<and> geotransform out = [10, 1, 0, 20, 0, - 1] \<and> projection out = ''WGS84'')"
proof -
  let ?img = "\<lparr>width = 2, height = 1, bands = [\<lparr>nodata = Some (Fin 0), pixels = [[Fin 0, Fin 5]]\<rparr>],
                geotransform = [10, 1, 0, 20, 0, - 1], projection = ''WGS84''\<rparr>"
  have 2: "''ENVI'' = ''ENVI'' \<or> ''ENVI'' = ''GTiff''" by simp
  have 3: "0 < length (bands ?img)" by simp
  have 4: "nodata (bands ?img ! 0) = Some (Fin 0)" by simp
  have 5: "0 < length (pixels (bands ?img ! 0))" by simp
  have 6: "0 < length (pixels (bands ?img ! 0) ! 0)" by simp
  have c: "nodata_cond (Fin 0) (f32 (Fin 0))" by (simp add: nodata_cond_def fl_eq_def isnan_def)
  have 7: "nodata_cond (Fin 0) (f32 (pixels (bands ?img ! 0) ! 0 ! 0))" using c by simp
  have s: "substitute (nodata_cond (Fin 0)) (mat_map f32 [[Fin 0, Fin 5]]) = [[Fin (- 9999), Fin 5]]"
    by (simp add: substitute_def mat_map_def nodata_cond_def fl_eq_def isnan_def)
  from guided_filter_nodata_preserved [OF window_filter_shape 2 3 4 5 6 7, of 3 0, THEN conjunct2]
  obtain out where o: "fst (guided_filter window_filter ?img 3 0 ''ENVI'') = Some out"
      "pixels (bands out ! 0) ! 0 ! 0 = f32 (pixels (bands ?img ! 0) ! 0 ! 0)"
      "nodata (bands out ! 0) = Some (Fin 0)"
      "geotransform out = geotransform ?img" "projection out = projection ?img"
    by blast
  have "\<exists>out. fst (guided_filter window_filter ?img 3 0 ''ENVI'') = Some out
     \<and> substitute (nodata_cond (Fin 0)) (mat_map f32 [[Fin 0, Fin 5]]) = [[Fin (- 9999), Fin 5]]
     \<and> pixels (bands out ! 0) ! 0 ! 0 = Fin 0 \<and> nodata (bands out ! 0) = Some (Fin 0)
     \<and> geotransform out = [10, 1, 0, 20, 0, - 1] \<and> projection out = ''WGS84''"
    using o s by (intro exI [of _ out]) simp
  then show ?thesis using window_filter_shape c by simp
qed

text \<open>
  A band of 32-bit integers whose no-data value is 16777217, and a pixel with that value.
  The nearest value of single precision is 16777216: the output pixel at this no-data
  location is 16777216, not the pixel of the input.
\<close>

lemma round32_16777217: "round32 16777217 = Fin 16777216"
  by (subst round32_eval [where e = 24]) (simp_all add: pow2_def round_half_even_def)

theorem guided_filter_nodata_rounded_counterexample:
  "fl_eq (pixels (bands
       \<lparr>width = 2, height = 1,
         bands = [\<lparr>nodata = Some (Fin 16777217), pixels = [[Fin 16777217, Fin 5]]\<rparr>],
         geotransform = [10, 1, 0, 20, 0, - 1], projection = ''WGS84''\<rparr> ! 0) ! 0 ! 0)
     (Fin 16777217)
   \<and> pixels (bands (the (fst (guided_filter window_filter
       \<lparr>width = 2, height = 1,
         bands = [\<lparr>nodata = Some (Fin 16777217), pixels = [[Fin 16777217, Fin 5]]\<rparr>],
         geotransform = [10, 1, 0, 20, 0, - 1], projection = ''WGS84''\<rparr> 3 0 ''GTiff''))) ! 0)
       ! 0 ! 0 = Fin 16777216
   \<and> Fin 16777216 \<noteq> Fin 16777217"
proof -
  let ?img = "\<lparr>width = 2, height = 1,
         bands = [\<lparr>nodata = Some (Fin 16777217), pixels = [[Fin 16777217, Fin 5]]\<rparr>],
         geotransform = [10, 1, 0, 20, 0, - 1], projection = ''WGS84''\<rparr>"
  have 2: "''GTiff'' = ''ENVI'' \<or> ''GTiff'' = ''GTiff''" by simp
  have 3: "0 < length (bands ?img)" by simp
  have 4: "nodata (bands ?img ! 0) = Some (Fin 16777217)" by simp
  have 5: "0 < length (pixels (bands ?img ! 0))" by simp
  have 6: "0 < length (pixels (bands ?img ! 0) ! 0)" by simp
  have 7: "nodata_cond (Fin 16777217) (f32 (pixels (bands ?img ! 0) ! 0 ! 0))"
    by (simp add: nodata_cond_def fl_eq_def isnan_def round32_16777217)
  from guided_filter_nodata_pixel [OF window_filter_shape 2 3 4 5 6 7, of 3 0]
  obtain out where o: "fst (guided_filter window_filter ?img 3 0 ''GTiff'') = Some out"
      "pixels (bands out ! 0) ! 0 ! 0 = f32 (pixels (bands ?img ! 0) ! 0 ! 0)"
    by blast
  have "pixels (bands (the (fst (guided_filter window_filter ?img 3 0 ''GTiff''))) ! 0) ! 0 ! 0 =
      Fin 16777216"
    using o by (simp add: round32_16777217)
  then show ?thesis by (simp add: fl_eq_def isnan_def)
qed

text \<open>
  Claim C10. For a band that declares no no-data value, the output band holds the guided
  filter of the whole band as read and converted to single precision, with no
  substitution and no restoration, and no no-data value is set on it.
\<close>

theorem guided_filter_undeclared_band:
  assumes "out_format = ''ENVI'' \<or> out_format = ''GTiff''"
    and "b < length (bands img)"
    and "nodata (bands img ! b) = None"
  shows "\<exists>out. fst (guided_filter bf img ksize eps out_format) = Some out \<and>
           pixels (bands out ! b) =
             guidedfilter bf (mat_map f32 (pixels (bands img ! b)))
               (mat_map f32 (pixels (bands img ! b))) ksize eps \<and>
           nodata (bands out ! b) = None"
proof -
  obtain out where out: "fst (guided_filter bf img ksize eps out_format) = Some out"
    and bnd: "bands out ! b = filter_band bf ksize eps (bands img ! b)
                \<lparr>nodata = None, pixels = replicate (height img) (replicate (width img) (Fin 0))\<rparr>"
    using guided_filter_written [OF assms(1), of bf img ksize eps] assms(2) by blast
  show ?thesis using out by (simp add: bnd filter_band_undeclared [OF assms(3)])
qed

text \<open>
  Two bands, the second without a no-data value and with a pixel equal to -9999, which
  the filter receives as it is. With the kernel size 1 the window of a pixel is the pixel:
  the variance and the covariance are 0, \<open>a\<close> is 0 and \<open>b\<close> the band, and the filter returns
  the band.
\<close>

lemma window_filter_1x2_k1:
  "window_filter [[Fin x, Fin y]] 1 = [[round32 x, round32 y]]"
  by (simp add: window_filter_def window_mean_def window_def reflect101_def upt_0_2
        upt_rec [of 0 1])

lemma round32_values_undeclared:
  "round32 99980001 = Fin 99980000"
  "round32 99980000 = Fin 99980000"
  "round32 (1 / 10000) = Fin (13743895 / 137438953472)"
  "round32 (13743895 / 137438953472) = Fin (13743895 / 137438953472)"
  by (subst round32_eval [where e = 26], simp_all add: pow2_def round_half_even_def)
     (subst round32_eval [where e = 26], simp_all add: pow2_def round_half_even_def,
      subst round32_eval [where e = "- 14"], simp_all add: pow2_def round_half_even_def,
      subst round32_eval [where e = "- 14"], simp_all add: pow2_def round_half_even_def)

theorem guided_filter_undeclared_band_witness:
  "\<exists>out. fst (guided_filter window_filter
              \<lparr>width = 2, height = 1,
                bands = [\<lparr>nodata = Some (Fin 0), pixels = [[Fin 0, Fin 5]]\<rparr>,
                         \<lparr>nodata = None, pixels = [[Fin (- 9999), Fin 2]]\<rparr>],
                geotransform = [10, 1, 0, 20, 0, - 1], projection = ''WGS84''\<rparr> 1 0 ''GTiff'') = Some out
     \<and> pixels (bands out ! 1) = [[Fin (- 9999), Fin 2]] \<and> nodata (bands out ! 1) = None"
proof -
  let ?img = "\<lparr>width = 2, height = 1,
                bands = [\<lparr>nodata = Some (Fin 0), pixels = [[Fin 0, Fin 5]]\<rparr>,
                         \<lparr>nodata = None, pixels = [[Fin (- 9999), Fin 2]]\<rparr>],
                geotransform = [10, 1, 0, 20, 0, - 1], projection = ''WGS84''\<rparr>"
  have 1: "''GTiff'' = ''ENVI'' \<or> ''GTiff'' = ''GTiff''" by simp
  have 2: "1 < length (bands ?img)" by simp
  have 3: "nodata (bands ?img ! 1) = None" by simp
  have c: "mat_map f32 [[Fin (- 9999), Fin 2]] = [[Fin (- 9999), Fin 2]]"
    by (simp add: mat_map_def)
  have g: "guidedfilter window_filter [[Fin (- 9999), Fin 2]] [[Fin (- 9999), Fin 2]] 1 0 =
      [[Fin (- 9999), Fin 2]]"
    by (simp add: guidedfilter_def gf_a_def gf_b_def gf_cov_def gf_var_def gf_divisor_def
        boxfilter_def mat_map_def mat_map2_def add32_def sub32_def mul32_def div32_def fl_sub_def
        window_filter_1x2_k1 round32_values_undeclared Let_def)
  from guided_filter_undeclared_band [OF 1 2 3, of window_filter 1 0]
  obtain out where o: "fst (guided_filter window_filter ?img 1 0 ''GTiff'') = Some out"
      "pixels (bands out ! 1) =
         guidedfilter window_filter (mat_map f32 (pixels (bands ?img ! 1)))
           (mat_map f32 (pixels (bands ?img ! 1))) 1 0"
      "nodata (bands out ! 1) = None"
    by blast
  then show ?thesis by (intro exI [of _ out]) (simp add: c g)
qed
section \<open>Properties of the per-pixel regression\<close>

subsection \<open>One pixel\<close>

lemma fit_pixel_br_eq: "fit_pixel_br lasso alpha k x y = fit_pixel lasso alpha k x y"
  by (simp add: fit_pixel_br_def fit_pixel_def)

lemma cal_row_cols_eq:
  "cal_row_cols lasso alpha k x values_row cols coefs_row =
   cols_loop lasso alpha k x values_row cols coefs_row"
  by (induction cols arbitrary: coefs_row) (simp_all add: fit_pixel_br_eq split: sum.splits)

lemma zip_nth_map: "length a = length v \<Longrightarrow> zip a v = map (\<lambda>i. (a ! i, v ! i)) [0..<length v]"
  by (rule nth_equalityI) simp_all

lemma bool_index_zip:
  assumes "length a = length v"
  shows "bool_index a v = map fst (filter snd (zip a v))"
proof -
  have "map fst (filter snd (zip a v)) =
        map fst (filter snd (map (\<lambda>i. (a ! i, v ! i)) [0..<length v]))"
    by (simp only: zip_nth_map [OF assms])
  also have "\<dots> = map (\<lambda>i. a ! i) (filter (\<lambda>i. v ! i) [0..<length v])"
    by (simp add: filter_map comp_def)
  finally show ?thesis by (simp add: bool_index_def)
qed

lemma bool_index_pairs:
  assumes "length x = length y"
  shows "bool_index x (map (\<lambda>v. \<not> isnan v) y) = map fst (filter (\<lambda>(row, v). \<not> isnan v) (zip x y))"
    and "bool_index y (map (\<lambda>v. \<not> isnan v) y) = map snd (filter (\<lambda>(row, v). \<not> isnan v) (zip x y))"
proof -
  let ?m = "map (\<lambda>v. \<not> isnan v) y"
  have zx: "zip x ?m = map (\<lambda>(row, v). (row, \<not> isnan v)) (zip x y)"
    by (simp add: zip_map2)
  show "bool_index x ?m = map fst (filter (\<lambda>(row, v). \<not> isnan v) (zip x y))"
    using assms by (simp add: bool_index_zip zx filter_map comp_def case_prod_unfold)
  have "bool_index y ?m = map fst (filter snd (zip y ?m))"
    by (simp add: bool_index_zip)
  also have "zip y ?m = map (\<lambda>v. (v, \<not> isnan v)) y"
    by (induction y) simp_all
  also have "map fst (filter snd (map (\<lambda>v. (v, \<not> isnan v)) y)) = filter (\<lambda>v. \<not> isnan v) y"
    by (induction y) simp_all
  also have "\<dots> = map snd (filter (\<lambda>(row, v). \<not> isnan v) (zip x y))"
    using assms by (induction x y rule: list_induct2) simp_all
  finally show "bool_index y ?m = map snd (filter (\<lambda>(row, v). \<not> isnan v) (zip x y))" .
qed

lemma fit_pixel_all_nan:
  assumes "length x = length y" "list_all isnan y"
  shows "fit_pixel lasso alpha k x y = Inr (replicate (2 + 2 * k) NaN)"
proof -
  have "filter (\<lambda>(row, v). \<not> isnan v) (zip x y) = []"
    using assms(2) by (auto simp: filter_empty_conv list_all_iff dest: set_zip_rightD)
  then have "bool_index y (map (\<lambda>v. \<not> isnan v) y) = []"
    by (simp add: bool_index_pairs(2) [OF assms(1)])
  then show ?thesis
    using assms(1) by (simp add: fit_pixel_def Let_def mult.commute)
qed

lemma fit_pixel_valid:
  assumes "length x = length y" "filter (\<lambda>(row, v). \<not> isnan v) (zip x y) \<noteq> []"
  shows "fit_pixel lasso alpha k x y =
     (case lasso alpha (map fst (filter (\<lambda>(row, v). \<not> isnan v) (zip x y)))
                  (map snd (filter (\<lambda>(row, v). \<not> isnan v) (zip x y))) of
        Inl e \<Rightarrow> Inl e
      | Inr (coefficients, intercept) \<Rightarrow> Inr (intercept # coefficients))"
  using assms by (simp add: fit_pixel_def Let_def bool_index_pairs [OF assms(1)])

subsection \<open>One row\<close>

lemma set_col_shape:
  assumes "set_col M c coefs = Inr M'"
  shows "length M' = length M" and "b < length M \<Longrightarrow> length (M' ! b) = length (M ! b)"
    and "length coefs = length M \<or> length coefs = 1"
  using assms by (auto simp: set_col_def split: if_splits)

lemma set_col_nth:
  assumes "set_col M c coefs = Inr M'" "b < length M" "j < length (M ! b)"
  shows "M' ! b ! j =
     (if j = c then (if length coefs = length M then coefs ! b else coefs ! 0) else M ! b ! j)"
  using assms by (auto simp: set_col_def nth_list_update split: if_splits)

lemma cols_loop_shape:
  "cols_loop lasso alpha k x vr cs M = Inr M' \<Longrightarrow>
   length M' = length M \<and> (\<forall>b < length M. length (M' ! b) = length (M ! b))"
proof (induction cs arbitrary: M)
  case Nil
  then show ?case by simp
next
  case (Cons c rest)
  from Cons.prems obtain y coefs M1 where
    s: "set_col M c coefs = Inr M1" and r: "cols_loop lasso alpha k x vr rest M1 = Inr M'"
    by (auto split: sum.splits)
  from Cons.IH [OF r] set_col_shape(1,2) [OF s] show ?case by auto
qed

lemma cols_loop_entry:
  "cols_loop lasso alpha k x vr cs M = Inr M' \<Longrightarrow> b < length M \<Longrightarrow> j < length (M ! b) \<Longrightarrow>
   (if j \<in> set cs
    then \<exists>y coefs. column vr j = Inr y \<and> fit_pixel lasso alpha k x y = Inr coefs \<and>
           (length coefs = length M \<or> length coefs = 1) \<and>
           M' ! b ! j = (if length coefs = length M then coefs ! b else coefs ! 0)
    else M' ! b ! j = M ! b ! j)"
proof (induction cs arbitrary: M)
  case Nil
  then show ?case by simp
next
  case (Cons c rest)
  from Cons.prems(1) obtain y coefs M1 where
    y: "column vr c = Inr y" and f: "fit_pixel lasso alpha k x y = Inr coefs" and
    s: "set_col M c coefs = Inr M1" and r: "cols_loop lasso alpha k x vr rest M1 = Inr M'"
    by (auto split: sum.splits)
  note sh = set_col_shape [OF s]
  have b1: "b < length M1" and j1: "j < length (M1 ! b)"
    using Cons.prems(2,3) sh(1) sh(2) [of b] by simp_all
  note ih = Cons.IH [OF r b1 j1]
  note at = set_col_nth [OF s Cons.prems(2,3)]
  show ?case
  proof (cases "j \<in> set rest")
    case True
    then show ?thesis using ih sh(1) by simp
  next
    case False
    show ?thesis
    proof (cases "j = c")
      case True
      then show ?thesis using ih False at y f sh(3) by auto
    next
      case False
      then show ?thesis using ih \<open>j \<notin> set rest\<close> at by simp
    qed
  qed
qed

lemma zeros_shape [simp]:
  "length (zeros n m) = n" "b < n \<Longrightarrow> length (zeros n m ! b) = m"
  by (simp_all add: zeros_def)

lemma fit_row_shape:
  assumes "fit_row lasso alpha k x values n_cols r = Inr m"
  shows "length m = 2 + 2 * k" and "b < 2 + 2 * k \<Longrightarrow> length (m ! b) = n_cols"
proof -
  from assms obtain vr where
    c: "cols_loop lasso alpha k x vr [0..<n_cols] (zeros (2 + k * 2) n_cols) = Inr m"
    by (auto simp: fit_row_def split: sum.splits)
  from cols_loop_shape [OF c] show "length m = 2 + 2 * k" by simp
  assume "b < 2 + 2 * k"
  with cols_loop_shape [OF c] show "length (m ! b) = n_cols" by simp
qed

lemma fit_row_entry:
  assumes "fit_row lasso alpha k x values n_cols r = Inr m" "b < 2 + 2 * k" "j < n_cols"
  shows "\<exists>vr y coefs. rows_at values r = Inr vr \<and> column vr j = Inr y \<and>
           fit_pixel lasso alpha k x y = Inr coefs \<and>
           (length coefs = 2 + 2 * k \<or> length coefs = 1) \<and>
           m ! b ! j = (if length coefs = 2 + 2 * k then coefs ! b else coefs ! 0)"
proof -
  from assms(1) obtain vr where v: "rows_at values r = Inr vr" and
    c: "cols_loop lasso alpha k x vr [0..<n_cols] (zeros (2 + k * 2) n_cols) = Inr m"
    by (auto simp: fit_row_def split: sum.splits)
  have b: "b < length (zeros (2 + k * 2) n_cols)" using assms(2) by simp
  have j: "j < length (zeros (2 + k * 2) n_cols ! b)" using assms(2,3) by simp
  from cols_loop_entry [OF c b j] assms(3) v show ?thesis by (simp add: mult.commute)
qed

subsection \<open>The two loops over the rows\<close>

lemma set_row_shape:
  assumes "length m = length cube"
  shows "length (set_row cube r m) = length cube"
    and "b < length cube \<Longrightarrow> set_row cube r m ! b = (cube ! b)[r := m ! b]"
  using assms by (simp_all add: set_row_def)

lemma fold_set_row_length:
  "\<forall>r \<in> set rs. length (M r) = length cube \<Longrightarrow>
   length (fold (\<lambda>r c. set_row c r (M r)) rs cube) = length cube"
proof (induction rs arbitrary: cube)
  case Nil
  then show ?case by simp
next
  case (Cons r rest)
  have lm: "length (M r) = length cube" using Cons.prems by simp
  have "\<forall>r' \<in> set rest. length (M r') = length (set_row cube r (M r))"
    using Cons.prems set_row_shape(1) [OF lm] by simp
  from Cons.IH [OF this] set_row_shape(1) [OF lm] show ?case by simp
qed

lemma fold_set_row_band_length:
  "\<forall>r \<in> set rs. length (M r) = length cube \<Longrightarrow> b < length cube \<Longrightarrow>
   length (fold (\<lambda>r c. set_row c r (M r)) rs cube ! b) = length (cube ! b)"
proof (induction rs arbitrary: cube)
  case Nil
  then show ?case by simp
next
  case (Cons r rest)
  have lm: "length (M r) = length cube" using Cons.prems(1) by simp
  note s = set_row_shape [OF lm, where r = r]
  have 1: "\<forall>r' \<in> set rest. length (M r') = length (set_row cube r (M r))"
    using Cons.prems(1) s(1) by simp
  have 2: "b < length (set_row cube r (M r))" using Cons.prems(2) s(1) by simp
  from Cons.IH [OF 1 2] s(2) [OF Cons.prems(2)] show ?case by simp
qed

lemma fold_set_row_nth:
  assumes "\<forall>r \<in> set rs. length (M r) = length cube" "b < length cube" "i < length (cube ! b)"
  shows "length (fold (\<lambda>r c. set_row c r (M r)) rs cube) = length cube \<and>
         length (fold (\<lambda>r c. set_row c r (M r)) rs cube ! b) = length (cube ! b) \<and>
         fold (\<lambda>r c. set_row c r (M r)) rs cube ! b ! i =
           (if i \<in> set rs then M i ! b else cube ! b ! i)"
  using assms
proof (induction rs arbitrary: cube)
  case Nil
  then show ?case by simp
next
  case (Cons r rest)
  let ?c1 = "set_row cube r (M r)"
  have lm: "length (M r) = length cube" using Cons.prems(1) by simp
  note s = set_row_shape [OF lm, where r = r]
  have 1: "\<forall>r' \<in> set rest. length (M r') = length ?c1" using Cons.prems(1) s(1) by simp
  have 2: "b < length ?c1" using Cons.prems(2) s(1) by simp
  have 3: "i < length (?c1 ! b)" using Cons.prems(3) s(2) [OF Cons.prems(2)] by simp
  from Cons.IH [OF 1 2 3] s(1) s(2) [OF Cons.prems(2)] Cons.prems(3)
  show ?case by (auto simp: nth_list_update)
qed

lemma rows_loop_Inr_iff:
  "rows_loop lasso alpha k x values n_cols rs cube = Inr c \<longleftrightarrow>
     (\<forall>r \<in> set rs. \<exists>m. fit_row lasso alpha k x values n_cols r = Inr m) \<and>
     c = fold (\<lambda>r c. set_row c r (projr (fit_row lasso alpha k x values n_cols r))) rs cube"
  by (induction rs arbitrary: cube) (auto split: sum.splits)

lemma starmap_args_Inr:
  "\<forall>r \<in> set rs. \<exists>vr. rows_at values r = Inr vr \<Longrightarrow>
   starmap_args values rs cols = Inr (map (\<lambda>r. (r, projr (rows_at values r), cols)) rs)"
  by (induction rs) auto

lemma starmap_args_rows_at:
  "starmap_args values rs cols = Inr args \<Longrightarrow> \<forall>r \<in> set rs. \<exists>vr. rows_at values r = Inr vr"
  by (induction rs arbitrary: args) (auto split: sum.splits)

lemma cal_row_fit_row:
  assumes "rows_at values r = Inr vr"
  shows "cal_row lasso alpha k x n_cols (r, vr, [0..<n_cols]) store =
     (case fit_row lasso alpha k x values n_cols r of
        Inl e \<Rightarrow> Inl e
      | Inr m \<Rightarrow> Inr (set_row store r m))"
  using assms by (simp add: cal_row_def fit_row_def cal_row_cols_eq)

lemma run_tasks_Inr_iff:
  assumes "\<forall>r \<in> set rs. \<exists>vr. rows_at values r = Inr vr"
  shows "run_tasks (cal_row lasso alpha k x n_cols)
           (map (\<lambda>r. (r, projr (rows_at values r), [0..<n_cols])) rs) store = Inr c \<longleftrightarrow>
     (\<forall>r \<in> set rs. \<exists>m. fit_row lasso alpha k x values n_cols r = Inr m) \<and>
     c = fold (\<lambda>r c. set_row c r (projr (fit_row lasso alpha k x values n_cols r))) rs store"
  using assms
proof (induction rs arbitrary: store)
  case Nil
  then show ?case by auto
next
  case (Cons r rest)
  from Cons.prems obtain vr where vr: "rows_at values r = Inr vr" by auto
  have rest: "\<forall>r \<in> set rest. \<exists>vr. rows_at values r = Inr vr" using Cons.prems by simp
  show ?case
    using Cons.IH [OF rest] vr by (auto simp: cal_row_fit_row [OF vr] split: sum.splits)
qed

lemma fit_row_rows_at:
  "fit_row lasso alpha k x values n_cols r = Inr m \<Longrightarrow> \<exists>vr. rows_at values r = Inr vr"
  by (auto simp: fit_row_def split: sum.splits)

lemma zeros3_shape [simp]:
  "length (zeros3 n r c) = n" "b < n \<Longrightarrow> length (zeros3 n r c ! b) = r"
  by (simp_all add: zeros3_def)

lemma harmonic_fitting_Inr_iff:
  "harmonic_fitting lasso alpha k x values n_rows n_cols = Inr c \<longleftrightarrow>
     (\<forall>r < n_rows. \<exists>m. fit_row lasso alpha k x values n_cols r = Inr m) \<and>
     c = fold (\<lambda>r c. set_row c r (projr (fit_row lasso alpha k x values n_cols r))) [0..<n_rows]
           (zeros3 (2 + k * 2) n_rows n_cols)"
  by (auto simp: harmonic_fitting_def rows_loop_Inr_iff)

lemma starmap_picklable_Inr_iff:
  assumes "schedule order n_rows"
    and args: "starmap_args values [0..<n_rows] [0..<n_cols] = Inr args"
  shows "starmap True order (cal_row lasso alpha k x n_cols) args
           (zeros3 (2 + k * 2) n_rows n_cols) = Inr c \<longleftrightarrow>
     (\<forall>r < n_rows. \<exists>m. fit_row lasso alpha k x values n_cols r = Inr m) \<and>
     c = fold (\<lambda>r c. set_row c r (projr (fit_row lasso alpha k x values n_cols r))) order
           (zeros3 (2 + k * 2) n_rows n_cols)"
proof -
  let ?task = "\<lambda>r. (r, projr (rows_at values r), [0..<n_cols])"
  let ?Z = "zeros3 (2 + k * 2) n_rows n_cols"
  have so: "set order = {0..<n_rows}" using assms(1) by (simp add: schedule_def)
  have tasks: "map (\<lambda>i. map ?task [0..<n_rows] ! i) order = map ?task order"
    using so by (intro map_cong) auto
  have rows: "\<forall>r \<in> set [0..<n_rows]. \<exists>vr. rows_at values r = Inr vr"
    by (rule starmap_args_rows_at [OF args])
  then have a: "args = map ?task [0..<n_rows]"
    using starmap_args_Inr [of "[0..<n_rows]" "values" "[0..<n_cols]"] args by simp
  have ro: "\<forall>r \<in> set order. \<exists>vr. rows_at values r = Inr vr" using rows so by simp
  have run: "starmap True order (cal_row lasso alpha k x n_cols) args ?Z =
      run_tasks (cal_row lasso alpha k x n_cols) (map ?task order) ?Z"
  proof (cases "n_rows = 0")
    case True
    then have "order = []" using so by simp
    then show ?thesis by (simp add: starmap_def)
  next
    case False
    then have "args \<noteq> []" by (simp add: a)
    then show ?thesis by (simp add: starmap_def a tasks)
  qed
  show ?thesis
    unfolding run
    using run_tasks_Inr_iff [OF ro, of lasso alpha k x n_cols ?Z c] so
    by auto
qed

lemma harmonic_fitting_br_raises:
  assumes "0 < n_rows"
  shows "\<exists>e. harmonic_fitting_br order lasso alpha k x values n_rows n_cols = Inl e"
proof (cases "starmap_args values [0..<n_rows] [0..<n_cols]")
  case (Inl e)
  then show ?thesis by (simp add: harmonic_fitting_br_def)
next
  case (Inr args)
  from starmap_args_rows_at [OF Inr]
  have "args = map (\<lambda>r. (r, projr (rows_at values r), [0..<n_cols])) [0..<n_rows]"
    using starmap_args_Inr [of "[0..<n_rows]" "values" "[0..<n_cols]"] Inr by simp
  then have "args \<noteq> []" using assms by simp
  then show ?thesis by (simp add: harmonic_fitting_br_def Inr starmap_def)
qed

lemma fold_set_row_schedule:
  assumes "schedule order n_rows"
    and "\<forall>r < n_rows. length (M r) = nb"
  shows "fold (\<lambda>r c. set_row c r (M r)) order (zeros3 nb n_rows n_cols) =
         fold (\<lambda>r c. set_row c r (M r)) [0..<n_rows] (zeros3 nb n_rows n_cols)"
proof -
  let ?Z = "zeros3 nb n_rows n_cols"
  let ?A = "fold (\<lambda>r c. set_row c r (M r)) order ?Z"
  let ?B = "fold (\<lambda>r c. set_row c r (M r)) [0..<n_rows] ?Z"
  have so: "set order = {0..<n_rows}" using assms(1) by (simp add: schedule_def)
  have mo: "\<forall>r \<in> set order. length (M r) = length ?Z" using assms(2) so by simp
  have mu: "\<forall>r \<in> set [0..<n_rows]. length (M r) = length ?Z" using assms(2) by simp
  have pa: "length ?A = nb \<and> length (?A ! b) = n_rows \<and> ?A ! b ! i = M i ! b"
    if "b < nb" "i < n_rows" for b i
    using fold_set_row_nth [OF mo, of b i] that so by simp
  have pb: "length ?B = nb \<and> length (?B ! b) = n_rows \<and> ?B ! b ! i = M i ! b"
    if "b < nb" "i < n_rows" for b i
    using fold_set_row_nth [OF mu, of b i] that by simp
  have la: "length ?A = nb" and lb: "length ?B = nb"
    using fold_set_row_length [OF mo] fold_set_row_length [OF mu] by simp_all
  show ?thesis
  proof (rule nth_equalityI)
    show "length ?A = length ?B" using la lb by simp
    fix b assume "b < length ?A"
    then have b: "b < nb" using la by simp
    have za: "length (?A ! b) = n_rows" and zb: "length (?B ! b) = n_rows"
      using fold_set_row_band_length [OF mo, of b] fold_set_row_band_length [OF mu, of b] b
      by simp_all
    show "?A ! b = ?B ! b"
    proof (rule nth_equalityI)
      show "length (?A ! b) = length (?B ! b)" using za zb by simp
      fix i assume "i < length (?A ! b)"
      then have "i < n_rows" using za by simp
      then show "?A ! b ! i = ?B ! b ! i" using pa [OF b] pb [OF b] by simp
    qed
  qed
qed

subsection \<open>The coefficients of one pixel in the output array\<close>

lemma series_of_pixel:
  assumes "rows_at values r = Inr vr" "column vr j = Inr y"
  shows "y = map (\<lambda>value. value ! r ! j) values"
  using assms by (auto simp: rows_at_def column_def split: if_splits)

lemma harmonic_fitting_pixel:
  assumes "harmonic_fitting lasso alpha k x values n_rows n_cols = Inr c"
    and "r < n_rows" "j < n_cols" "b < 2 + 2 * k"
  shows "length c = 2 + 2 * k \<and>
         (\<exists>coefs. fit_pixel lasso alpha k x (map (\<lambda>value. value ! r ! j) values) = Inr coefs \<and>
            (length coefs = 2 + 2 * k \<or> length coefs = 1) \<and>
            c ! b ! r ! j = (if length coefs = 2 + 2 * k then coefs ! b else coefs ! 0))"
proof -
  let ?F = "\<lambda>r. fit_row lasso alpha k x values n_cols r"
  let ?M = "\<lambda>r. projr (?F r)"
  let ?Z = "zeros3 (2 + k * 2) n_rows n_cols"
  from assms(1) have ok: "\<forall>r < n_rows. \<exists>m. ?F r = Inr m"
    and c: "c = fold (\<lambda>r c. set_row c r (?M r)) [0..<n_rows] ?Z"
    by (simp_all add: harmonic_fitting_Inr_iff)
  have len: "\<forall>r \<in> set [0..<n_rows]. length (?M r) = length ?Z"
  proof
    fix r' assume "r' \<in> set [0..<n_rows]"
    then obtain m where m: "?F r' = Inr m" using ok by auto
    from fit_row_shape(1) [OF m] show "length (?M r') = length ?Z" by (simp add: m)
  qed
  have b: "b < length ?Z" using assms(4) by simp
  have r: "r < length (?Z ! b)" using assms(2,4) by simp
  from fold_set_row_nth [OF len b r] assms(2)
  have lc: "length c = 2 + 2 * k" and cb: "c ! b ! r = ?M r ! b" by (simp_all add: c)
  obtain m where m: "?F r = Inr m" using ok assms(2) by auto
  from fit_row_entry [OF m assms(4,3)] obtain vr y coefs where
    e: "rows_at values r = Inr vr" "column vr j = Inr y"
       "fit_pixel lasso alpha k x y = Inr coefs"
       "length coefs = 2 + 2 * k \<or> length coefs = 1"
       "m ! b ! j = (if length coefs = 2 + 2 * k then coefs ! b else coefs ! 0)"
    by blast
  have y: "y = map (\<lambda>value. value ! r ! j) values" by (rule series_of_pixel [OF e(1,2)])
  show ?thesis using lc cb m e(3,4,5) y by auto
qed

lemma harmonic_fitting_nan_pixel:
  assumes "harmonic_fitting lasso alpha k x values n_rows n_cols = Inr c"
    and "r < n_rows" "j < n_cols" "length x = length values"
    and "list_all (\<lambda>value. isnan (value ! r ! j)) values"
  shows "length c = 2 + 2 * k \<and> (\<forall>b < 2 + 2 * k. c ! b ! r ! j = NaN)"
proof -
  let ?y = "map (\<lambda>value. value ! r ! j) values"
  have ly: "length x = length ?y" using assms(4) by simp
  have ny: "list_all isnan ?y" using assms(5) by (simp add: list_all_iff)
  note f = fit_pixel_all_nan [OF ly ny, of lasso alpha k]
  have "c ! b ! r ! j = NaN" if "b < 2 + 2 * k" for b
  proof -
    from harmonic_fitting_pixel [OF assms(1,2,3) that] obtain coefs where
      p: "fit_pixel lasso alpha k x ?y = Inr coefs"
         "c ! b ! r ! j = (if length coefs = 2 + 2 * k then coefs ! b else coefs ! 0)"
      by blast
    have coefs: "coefs = replicate (2 + 2 * k) NaN" using p(1) f by simp
    have "length coefs = 2 + 2 * k" by (simp only: coefs length_replicate)
    then have "c ! b ! r ! j = replicate (2 + 2 * k) NaN ! b" using p(2) coefs by simp
    also have "\<dots> = NaN" using that by (rule nth_replicate)
    finally show ?thesis .
  qed
  moreover have "length c = 2 + 2 * k"
    using harmonic_fitting_pixel [OF assms(1,2,3), of 0] by simp
  ultimately show ?thesis by simp
qed

lemma starmap_picklable_equivalent:
  assumes "schedule order n_rows"
    and args: "starmap_args values [0..<n_rows] [0..<n_cols] = Inr args"
  shows "starmap True order (cal_row lasso alpha k x n_cols) args
           (zeros3 (2 + k * 2) n_rows n_cols) = Inr c \<longleftrightarrow>
         harmonic_fitting lasso alpha k x values n_rows n_cols = Inr c"
proof -
  let ?F = "\<lambda>r. fit_row lasso alpha k x values n_cols r"
  let ?M = "\<lambda>r. projr (?F r)"
  show ?thesis
  proof (cases "\<forall>r < n_rows. \<exists>m. ?F r = Inr m")
    case True
    have "\<forall>r < n_rows. length (?M r) = 2 + k * 2"
    proof (intro allI impI)
      fix r assume "r < n_rows"
      then obtain m where m: "?F r = Inr m" using True by auto
      from fit_row_shape(1) [OF m] show "length (?M r) = 2 + k * 2" by (simp add: m)
    qed
    from fold_set_row_schedule [OF assms(1) this, of n_cols]
    show ?thesis
      by (simp only: starmap_picklable_Inr_iff [OF assms] harmonic_fitting_Inr_iff)
  next
    case False
    then show ?thesis
      by (simp only: starmap_picklable_Inr_iff [OF assms] harmonic_fitting_Inr_iff) simp
  qed
qed

text \<open>
  Claim C1, at an input where the code departs from it. Two images of two rows and two
  columns, one harmonic pair (\<open>k = 1\<close>), \<open>alpha = 1\<close>, and a stand-in for the Lasso fit that
  returns \<open>alpha\<close> for every coefficient and the first valid observation as intercept.
  Pixel (0, 0) is NaN in both images. The row-threaded fitter returns the coefficient
  array, with NaN in the four bands of pixel (0, 0); the memory-mapped fitter raises
  \<open>AttributeError\<close> at \<open>pool.starmap\<close> and produces no coefficient at any pixel. (The bodies
  of the two per-pixel loops are the same, \<open>fit_pixel_br_eq\<close>, and a pool that could send
  \<open>_cal_row\<close> to its workers would return the array of the row-threaded fitter,
  \<open>starmap_picklable_equivalent\<close>.)
\<close>

theorem harmonic_fitting_br_diverges:
  "harmonic_fitting (\<lambda>alpha xs ys. Inr (replicate (length (xs ! 0)) (Fin alpha), ys ! 0)) 1 1
     [[Fin 1, Fin 2, Fin 3], [Fin 4, Fin 5, Fin 6]]
     [[[NaN, Fin 7], [Fin 1, Fin 2]], [[NaN, Fin 8], [Fin 3, NaN]]] 2 2 =
   Inr [[[NaN, Fin 7], [Fin 1, Fin 2]], [[NaN, Fin 1], [Fin 1, Fin 1]],
        [[NaN, Fin 1], [Fin 1, Fin 1]], [[NaN, Fin 1], [Fin 1, Fin 1]]] \<and>
   harmonic_fitting_br [1, 0] (\<lambda>alpha xs ys. Inr (replicate (length (xs ! 0)) (Fin alpha), ys ! 0)) 1 1
     [[Fin 1, Fin 2, Fin 3], [Fin 4, Fin 5, Fin 6]]
     [[[NaN, Fin 7], [Fin 1, Fin 2]], [[NaN, Fin 8], [Fin 3, NaN]]] 2 2 =
   Inl AttributeError"
proof -
  let ?L = "\<lambda>(alpha::real) (xs::matrix) (ys::fl list). Inr (replicate (length (xs ! 0)) (Fin alpha), ys ! 0)
              :: error + (fl list \<times> fl)"
  let ?x = "[[Fin 1, Fin 2, Fin 3], [Fin 4, Fin 5, Fin 6]]"
  let ?v = "[[[NaN, Fin 7], [Fin 1, Fin 2]], [[NaN, Fin 8], [Fin 3, NaN]]]"
  have seq: "harmonic_fitting ?L 1 1 ?x ?v 2 2 =
      Inr [[[NaN, Fin 7], [Fin 1, Fin 2]], [[NaN, Fin 1], [Fin 1, Fin 1]],
           [[NaN, Fin 1], [Fin 1, Fin 1]], [[NaN, Fin 1], [Fin 1, Fin 1]]]"
    by (simp add: harmonic_fitting_def fit_row_def rows_at_def column_def fit_pixel_def
      bool_index_def set_col_def set_row_def zeros_def zeros3_def isnan_def Let_def
      upt_rec [of 0] upt_rec [of 1] upt_rec [of 2] numeral_2_eq_2)
  have br: "harmonic_fitting_br [1, 0] ?L 1 1 ?x ?v 2 2 = Inl AttributeError"
    by (simp add: harmonic_fitting_br_def starmap_def rows_at_def
      upt_rec [of 0] upt_rec [of 1] upt_rec [of 2] numeral_2_eq_2)
  show ?thesis using seq br by simp
qed

subsection \<open>No-data observations\<close>

lemma not_all_nan_pairs:
  assumes "length x = length y" "\<not> list_all isnan y"
  shows "filter (\<lambda>(row, v). \<not> isnan v) (zip x y) \<noteq> []"
proof -
  from assms(2) obtain i where i: "i < length y" "\<not> isnan (y ! i)"
    by (auto simp: list_all_iff in_set_conv_nth)
  then have "(x ! i, y ! i) \<in> set (zip x y)"
    using assms(1) by (auto simp: set_zip)
  with i(2) show ?thesis by (auto simp: filter_empty_conv)
qed

lemma map2_replicate: "map2 f M (replicate (length M) a) = map (\<lambda>row. f row a) M"
  by (induction M) simp_all

lemma cols_loop_skips_nan_pixel:
  assumes "column vr col = Inr y" "length x = length y" "list_all isnan y"
    and "length M = 2 + 2 * k"
  shows "cols_loop lasso alpha k x vr (col # rest) M =
         cols_loop lasso alpha k x vr rest (map (\<lambda>row. row[col := NaN]) M)"
proof -
  have "set_col M col (replicate (2 + 2 * k) NaN) = Inr (map (\<lambda>row. row[col := NaN]) M)"
    using map2_replicate [of "\<lambda>row v. row[col := v]" M NaN] assms(4)
    by (simp add: set_col_def)
  then show ?thesis
    by (simp add: assms(1) fit_pixel_all_nan [OF assms(2,3)])
qed

text \<open>
  Claim C6. For a pixel with series \<open>y\<close>, one observation per row of the design matrix \<open>x\<close>:
  the fit is run on the pairs (design row, observation) whose observation is not NaN, in
  their order; when every observation is NaN the fit is not run and the coefficient
  vector is \<open>2 + 2k\<close> times NaN, whatever the fitter would do; the loop over the columns
  then goes on with the remaining pixels of the row; and in the array that
  \<open>harmonic_fitting\<close> returns, such a pixel holds NaN in every band.
\<close>

theorem fit_pixel_nodata:
  assumes "length x = length y"
  shows "(\<not> list_all isnan y \<longrightarrow>
            fit_pixel lasso alpha k x y =
              (case lasso alpha (map fst (filter (\<lambda>(row, v). \<not> isnan v) (zip x y)))
                           (map snd (filter (\<lambda>(row, v). \<not> isnan v) (zip x y))) of
                 Inl e \<Rightarrow> Inl e
               | Inr (coefficients, intercept) \<Rightarrow> Inr (intercept # coefficients))) \<and>
         (list_all isnan y \<longrightarrow>
            fit_pixel lasso alpha k x y = Inr (replicate (2 + 2 * k) NaN) \<and>
            (\<forall>vr col rest (M::matrix). column vr col = Inr y \<and> length M = 2 + 2 * k \<longrightarrow>
               cols_loop lasso alpha k x vr (col # rest) M =
               cols_loop lasso alpha k x vr rest (map (\<lambda>row. row[col := NaN]) M)) \<and>
            (\<forall>values n_rows n_cols c r j.
               harmonic_fitting lasso alpha k x values n_rows n_cols = Inr c \<and>
               r < n_rows \<and> j < n_cols \<and> y = map (\<lambda>value. value ! r ! j) values \<longrightarrow>
               length c = 2 + 2 * k \<and> (\<forall>b < 2 + 2 * k. c ! b ! r ! j = NaN)))"
    (is "?valid \<and> (_ \<longrightarrow> ?nan \<and> ?next \<and> ?tile)")
proof -
  have 1: ?valid
  proof
    assume "\<not> list_all isnan y"
    from fit_pixel_valid [OF assms not_all_nan_pairs [OF assms this]]
    show "fit_pixel lasso alpha k x y =
              (case lasso alpha (map fst (filter (\<lambda>(row, v). \<not> isnan v) (zip x y)))
                           (map snd (filter (\<lambda>(row, v). \<not> isnan v) (zip x y))) of
                 Inl e \<Rightarrow> Inl e
               | Inr (coefficients, intercept) \<Rightarrow> Inr (intercept # coefficients))" .
  qed
  have 2: ?nan if "list_all isnan y"
    by (rule fit_pixel_all_nan [OF assms that])
  have 3: ?next if n: "list_all isnan y"
    using cols_loop_skips_nan_pixel [OF _ assms n] by blast
  have 4: ?tile if n: "list_all isnan y"
  proof (intro allI impI)
    fix "values" :: "matrix list" and n_rows n_cols c r j
    assume a: "harmonic_fitting lasso alpha k x values n_rows n_cols = Inr c \<and>
            r < n_rows \<and> j < n_cols \<and> y = map (\<lambda>value. value ! r ! j) values"
    have l: "length x = length values" using assms a by simp
    have v: "list_all (\<lambda>value. isnan (value ! r ! j)) values"
      using n a by (simp add: list_all_iff)
    from harmonic_fitting_nan_pixel [OF _ _ _ l v] a
    show "length c = 2 + 2 * k \<and> (\<forall>b < 2 + 2 * k. c ! b ! r ! j = NaN)" by blast
  qed
  show ?thesis using 1 2 3 4 by blast
qed

text \<open>
  Two images, both NaN at the pixel, and a fitter that always raises: the coefficient
  vector is four times NaN. With a valid second observation the fit is run on the second
  design row and the second observation alone.
\<close>

theorem fit_pixel_nodata_witness:
  "length [[Fin 1, Fin 2, Fin 3], [Fin 4, Fin 5, Fin 6]] = length [NaN, NaN] \<and>
   fit_pixel (\<lambda>alpha xs ys. Inl FitError) 1 1 [[Fin 1, Fin 2, Fin 3], [Fin 4, Fin 5, Fin 6]] [NaN, NaN] =
     Inr [NaN, NaN, NaN, NaN] \<and>
   fit_pixel (\<lambda>alpha xs ys. Inr (xs ! 0, ys ! 0)) 1 1
       [[Fin 1, Fin 2, Fin 3], [Fin 4, Fin 5, Fin 6]] [NaN, Fin 7] =
     Inr [Fin 7, Fin 4, Fin 5, Fin 6]"
proof -
  let ?x = "[[Fin 1, Fin 2, Fin 3], [Fin 4, Fin 5, Fin 6]]"
  have l1: "length ?x = length [NaN, NaN]" by simp
  have l2: "length ?x = length [NaN, Fin 7]" by simp
  have n1: "list_all isnan [NaN, NaN]" by (simp add: isnan_def)
  have n2: "\<not> list_all isnan [NaN, Fin 7]" by (simp add: isnan_def)
  from fit_pixel_nodata [OF l1, of "\<lambda>alpha xs ys. Inl FitError" 1 1] n1
  have a: "fit_pixel (\<lambda>alpha xs ys. Inl FitError) 1 1 ?x [NaN, NaN] = Inr (replicate (2 + 2 * 1) NaN)"
    by blast
  from fit_pixel_nodata [OF l2, of "\<lambda>alpha xs ys. Inr (xs ! 0, ys ! 0)" 1 1] n2
  have b: "fit_pixel (\<lambda>alpha xs ys. Inr (xs ! 0, ys ! 0)) 1 1 ?x [NaN, Fin 7] =
      (case Inr (map fst (filter (\<lambda>(row, v). \<not> isnan v) (zip ?x [NaN, Fin 7])) ! 0,
                 map snd (filter (\<lambda>(row, v). \<not> isnan v) (zip ?x [NaN, Fin 7])) ! 0) of
         Inl e \<Rightarrow> Inl e
       | Inr (coefficients, intercept) \<Rightarrow> Inr (intercept # coefficients))"
    by blast
  have r: "replicate 4 NaN = [NaN, NaN, NaN, NaN]"
    by code_simp
  show ?thesis using a b l1 by (simp add: r isnan_def)
qed

section \<open>The scratch file of the memory-mapped fitter\<close>

lemma scratch_file_left:
  assumes "0 < n_rows"
  shows "(\<exists>e. snd (harmonic_fitting_br_files order lasso alpha k x values n_rows n_cols
                   tile_index dst_path create_ok w) = Inl e) \<and>
         scratch_name tile_index \<in>
           files (fst (harmonic_fitting_br_files order lasso alpha k x values n_rows n_cols
                         tile_index dst_path create_ok w)) \<and>
         trace (fst (harmonic_fitting_br_files order lasso alpha k x values n_rows n_cols
                       tile_index dst_path create_ok w)) =
           trace w @ [Memmap_Create (scratch_name tile_index), Pool_Starmap]"
proof -
  from harmonic_fitting_br_raises [OF assms] obtain e where
    "harmonic_fitting_br order lasso alpha k x values n_rows n_cols = Inl e" by blast
  then show ?thesis by (simp add: harmonic_fitting_br_files_def Let_def)
qed

text \<open>
  Claim C7, at an input where the code departs from it. One image of one pixel with the
  observation 7, tile 7, an output path that can be created, and a stand-in for the Lasso
  fit that, as scikit-learn does, raises \<open>ValueError\<close> on an infinite observation and
  returns otherwise. The scratch file \<open>tmp_7.dat\<close> is created before the pool starts;
  \<open>pool.starmap\<close> raises, the function ends there, nothing is written out or removed, and
  \<open>tmp_7.dat\<close> is still there at the end. (\<open>scratch_file_left\<close>: so it is for every tile
  with at least one row; the only \<open>os.unlink\<close> is the last statement of the function and
  no exception is handled before it.)
\<close>

theorem scratch_file_remains:
  "snd (harmonic_fitting_br_files [0]
       (\<lambda>alpha xs ys. if list_ex (\<lambda>v. v = PInf \<or> v = NInf) ys then Inl ValueError
                       else Inr (replicate (length (xs ! 0)) (Fin alpha), ys ! 0))
       1 1 [[Fin 1, Fin 2, Fin 3]] [[[Fin 7]]] 1 1 ''7'' ''tile7_VV_harmonic.tif'' True
       \<lparr>files = {}, trace = []\<rparr>) = Inl AttributeError \<and>
   ''tmp_7.dat'' \<in>
     files (fst (harmonic_fitting_br_files [0]
       (\<lambda>alpha xs ys. if list_ex (\<lambda>v. v = PInf \<or> v = NInf) ys then Inl ValueError
                       else Inr (replicate (length (xs ! 0)) (Fin alpha), ys ! 0))
       1 1 [[Fin 1, Fin 2, Fin 3]] [[[Fin 7]]] 1 1 ''7'' ''tile7_VV_harmonic.tif'' True
       \<lparr>files = {}, trace = []\<rparr>)) \<and>
   trace (fst (harmonic_fitting_br_files [0]
       (\<lambda>alpha xs ys. if list_ex (\<lambda>v. v = PInf \<or> v = NInf) ys then Inl ValueError
                       else Inr (replicate (length (xs ! 0)) (Fin alpha), ys ! 0))
       1 1 [[Fin 1, Fin 2, Fin 3]] [[[Fin 7]]] 1 1 ''7'' ''tile7_VV_harmonic.tif'' True
       \<lparr>files = {}, trace = []\<rparr>)) =
     [Memmap_Create ''tmp_7.dat'', Pool_Starmap]"
  by (simp add: harmonic_fitting_br_files_def scratch_name_def
        harmonic_fitting_br_def starmap_def rows_at_def Let_def)

section \<open>Properties of the batch drivers\<close>

lemma submit_loop_open:
  "\<not> is_closed ex \<Longrightarrow>
   submit_loop ex tiles s f = (ex\<lparr>queue := queue ex @ tiles\<rparr>, s + length tiles, f)"
  by (induction tiles arbitrary: ex s) (simp_all add: submit_def)

lemma s1_harmonic_batch_summary:
  "s1_harmonic_batch run n tiles =
     (\<lparr>capacity = n, is_closed = True, queue = [], finished = map (\<lambda>t. (t, run t)) tiles\<rparr>,
      length tiles, length tiles, 0)"
  by (simp add: s1_harmonic_batch_def new_executor_def submit_loop_open drain_def close_def)

lemma s2_wasp_batch_summary:
  "s2_wasp_batch run n tiles =
     (\<lparr>capacity = n, is_closed = True, queue = [], finished = map (\<lambda>t. (t, run t)) tiles\<rparr>,
      length tiles, length tiles, 0)"
  by (simp add: s2_wasp_batch_def new_executor_def submit_loop_open drain_def close_def)

text \<open>
  Claim C8 at a batch of two tiles, the task of tile 12 failing and the task of tile 13
  succeeding: both drivers log \<open>success_count = 2\<close> and \<open>failure_count = 0\<close>, the numbers of
  accepted and of rejected submissions, although one task failed.
\<close>

theorem batch_counts_accepted_tasks:
  "snd (s1_harmonic_batch (\<lambda>tile. if tile = ''12'' then Failed else Succeeded) 4 [''12'', ''13'']) =
     (2, 2, 0) \<and>
   finished (fst (s1_harmonic_batch (\<lambda>tile. if tile = ''12'' then Failed else Succeeded) 4
                    [''12'', ''13''])) = [(''12'', Failed), (''13'', Succeeded)] \<and>
   snd (s2_wasp_batch (\<lambda>tile. if tile = ''12'' then Failed else Succeeded) 4 [''12'', ''13'']) =
     (2, 2, 0) \<and>
   finished (fst (s2_wasp_batch (\<lambda>tile. if tile = ''12'' then Failed else Succeeded) 4
                    [''12'', ''13''])) = [(''12'', Failed), (''13'', Succeeded)]"
  by (simp add: s1_harmonic_batch_summary s2_wasp_batch_summary)


end
